theory Spec2Isabelle
  imports Main "HOL-Library.AList" "HOL-Library.Char_ord" "HOL-Library.List_Lexorder"
begin

section \<open>Data model of the ToolSession durable object\<close>

text \<open>
  Timestamps are the strings produced by \<^verbatim>\<open>new Date().toISOString()\<close>. The only
  operation the code applies to a stored timestamp is \<^verbatim>\<open>new Date(s).getTime()\<close>,
  which yields the epoch milliseconds or NaN. \<open>ISO t\<close> stands for a string that parses
  to the instant \<open>t\<close>; \<open>NotADate\<close> for any string that does not parse (a client can
  store one through the request body of createSession).
\<close>

datatype date_string = ISO int | NotADate

fun getTime :: "date_string \<Rightarrow> int option" where
  "getTime (ISO t) = Some t"
| "getTime NotADate = None"

datatype execution_status = Running | Completed | Failed

datatype session_status = Active | Inactive | Streaming

record tool_execution =
  exec_id :: string
  toolName :: string
  agent :: string
  exec_status :: execution_status
  startTime :: date_string
  endTime :: "date_string option"
  progress :: "int option"

record SessionData =
  session_id :: string
  createdAt :: date_string
  updatedAt :: date_string
  status :: session_status
  toolExecutions :: "tool_execution list"
  websocketConnections :: int
  lastActivity :: date_string

text \<open>
  A parsed JSON request body (\<^verbatim>\<open>await request.json() as any\<close>), restricted to the keys
  of SessionData: each key is present with a value or absent.
\<close>

record session_fields =
  f_id :: "string option"
  f_createdAt :: "date_string option"
  f_updatedAt :: "date_string option"
  f_status :: "session_status option"
  f_toolExecutions :: "tool_execution list option"
  f_websocketConnections :: "int option"
  f_lastActivity :: "date_string option"

type_synonym ws = nat

text \<open>
  One event of the backend feed after \<^verbatim>\<open>JSON.parse\<close>: the three properties the relay
  inspects (\<^verbatim>\<open>type\<close>, \<^verbatim>\<open>data?.progress\<close>, \<^verbatim>\<open>source\<close>) and the text it came from.
\<close>

record backend_event =
  ev_type :: "string option"
  ev_progress :: "int option"
  ev_source :: "string option"
  ev_json :: string

text \<open>The object literals the class passes to \<^verbatim>\<open>ws.send\<close>, one constructor each.\<close>

datatype StreamMessage =
    Connected date_string string
  | SessionDeleting date_string string
  | ExecutionStarting date_string string string string "string option"
  | Forwarded backend_event string string
  | RawData date_string string string "string option"
  | ExecutionError date_string string string string "string option"

fun msg_type :: "StreamMessage \<Rightarrow> string option" where
  "msg_type (Connected t sid) = Some ''connection''"
| "msg_type (SessionDeleting t sid) = Some ''connection''"
| "msg_type (ExecutionStarting t ag tool eid rid) = Some ''progress''"
| "msg_type (Forwarded ev eid src) = ev_type ev"
| "msg_type (RawData t txt sid rid) = Some ''data''"
| "msg_type (ExecutionError t msg eid sid rid) = Some ''error''"

datatype body = Text string | Json SessionData | Upgrade ws

datatype Response = Response nat body

text \<open>
  Which calls into the runtime throw. Each oracle gives the message of the thrown Error:
  \<^verbatim>\<open>storage.get/put/delete(key)\<close>, \<^verbatim>\<open>storage.list()\<close> and \<^verbatim>\<open>ws.send\<close>.
\<close>

record faults =
  get_error :: "string \<Rightarrow> string option"
  put_error :: "string \<Rightarrow> string option"
  delete_error :: "string \<Rightarrow> string option"
  list_error :: "string option"
  send_error :: "ws \<Rightarrow> string option"

definition no_faults :: faults where
  "no_faults = \<lparr> get_error = (\<lambda>_. None), put_error = (\<lambda>_. None),
     delete_error = (\<lambda>_. None), list_error = None, send_error = (\<lambda>_. None) \<rparr>"

text \<open>
  What is written to the console: \<^verbatim>\<open>console.log(text)\<close>, and
  \<^verbatim>\<open>console.error(text, error)\<close> with the message of the error.
\<close>

datatype console_entry = ConsoleLog string | ConsoleError string string

text \<open>
  The instance state: the key-value storage (an association list with one entry for
  each key), the \<^verbatim>\<open>websockets\<close> set in insertion order, and the observable
  effects of the calls that are followed: messages delivered by \<^verbatim>\<open>ws.send\<close>, sockets
  on which \<^verbatim>\<open>close()\<close> was called, the alarm set by \<^verbatim>\<open>setAlarm\<close> and the
  console.
\<close>

record ToolSession =
  storage :: "(string \<times> SessionData) list"
  websockets :: "ws list"
  delivered :: "(ws \<times> StreamMessage) list"
  closed :: "ws list"
  alarmTime :: "int option"
  console :: "console_entry list"

definition session_key :: "string \<Rightarrow> string" where
  "session_key sessionId = ''session:'' @ sessionId"

section \<open>createSession\<close>

definition Object_assign :: "SessionData \<Rightarrow> session_fields \<Rightarrow> SessionData" where
  "Object_assign target src =
     \<lparr> session_id = (case f_id src of Some v \<Rightarrow> v | None \<Rightarrow> session_id target),
       createdAt = (case f_createdAt src of Some v \<Rightarrow> v | None \<Rightarrow> createdAt target),
       updatedAt = (case f_updatedAt src of Some v \<Rightarrow> v | None \<Rightarrow> updatedAt target),
       status = (case f_status src of Some v \<Rightarrow> v | None \<Rightarrow> status target),
       toolExecutions =
         (case f_toolExecutions src of Some v \<Rightarrow> v | None \<Rightarrow> toolExecutions target),
       websocketConnections =
         (case f_websocketConnections src of Some v \<Rightarrow> v
          | None \<Rightarrow> websocketConnections target),
       lastActivity =
         (case f_lastActivity src of Some v \<Rightarrow> v | None \<Rightarrow> lastActivity target) \<rparr>"

definition new_session :: "string \<Rightarrow> int \<Rightarrow> SessionData" where
  "new_session sessionId now =
     \<lparr> session_id = sessionId, createdAt = ISO now, updatedAt = ISO now, status = Active,
       toolExecutions = [], websocketConnections = 0, lastActivity = ISO now \<rparr>"

text \<open>
  \<^verbatim>\<open>createSession(sessionId, request)\<close>: the body is \<open>None\<close> when \<^verbatim>\<open>request.json()\<close>
  throws. A throw of \<^verbatim>\<open>storage.put\<close> lands in the same catch block.
\<close>

definition createSession ::
  "faults \<Rightarrow> string \<Rightarrow> session_fields option \<Rightarrow> int \<Rightarrow> ToolSession \<Rightarrow> Response \<times> ToolSession" where
  "createSession F sessionId request now st =
     (case request of
        None \<Rightarrow> (Response 400 (Text ''Invalid session data''), st)
      | Some sessionData \<Rightarrow>
          (let session = Object_assign (new_session sessionId now) sessionData in
           case put_error F (session_key sessionId) of
             Some e \<Rightarrow> (Response 400 (Text ''Invalid session data''), st)
           | None \<Rightarrow>
               (Response 201 (Json session),
                st\<lparr>storage := AList.update (session_key sessionId) session (storage st)\<rparr>)))"

definition getSessionData :: "faults \<Rightarrow> ToolSession \<Rightarrow> string \<Rightarrow> SessionData option" where
  "getSessionData F st sessionId =
     (case get_error F (session_key sessionId) of
        Some e \<Rightarrow> None
      | None \<Rightarrow> map_of (storage st) (session_key sessionId))"

section \<open>Realtime connections\<close>

definition set_add :: "ws \<Rightarrow> ws list \<Rightarrow> ws list" where
  "set_add w wss = (if w \<in> set wss then wss else wss @ [w])"

definition deliver :: "ws \<Rightarrow> StreamMessage \<Rightarrow> ToolSession \<Rightarrow> ToolSession" where
  "deliver w m st = st\<lparr>delivered := delivered st @ [(w, m)]\<rparr>"

text \<open>
  \<^verbatim>\<open>handleWebSocket(request, sessionId)\<close> up to the registration of the listeners;
  \<open>server\<close> is the accepted end of the new WebSocketPair. Any throw inside gives the
  500 response.
\<close>

definition handleWebSocket ::
  "faults \<Rightarrow> string \<Rightarrow> ws \<Rightarrow> int \<Rightarrow> ToolSession \<Rightarrow> Response \<times> ToolSession" where
  "handleWebSocket F sessionId server now st =
     (let st1 = st\<lparr>websockets := set_add server (websockets st)\<rparr> in
      case
        (case getSessionData F st1 sessionId of
           None \<Rightarrow> Inr st1
         | Some session \<Rightarrow>
             (case put_error F (session_key sessionId) of
                Some e \<Rightarrow> Inl st1
              | None \<Rightarrow>
                  Inr (st1\<lparr>storage :=
                    AList.update (session_key sessionId)
                      (session\<lparr>websocketConnections := websocketConnections session + 1,
                         status := Streaming, lastActivity := ISO now\<rparr>)
                      (storage st1)\<rparr>)))
      of
        Inl st2 \<Rightarrow> (Response 500 (Text ''WebSocket setup failed''), st2)
      | Inr st2 \<Rightarrow>
          (case send_error F server of
             Some e \<Rightarrow> (Response 500 (Text ''WebSocket setup failed''), st2)
           | None \<Rightarrow>
               (Response 101 (Upgrade server), deliver server (Connected (ISO now) sessionId) st2)))"

text \<open>
  The \<^verbatim>\<open>'close'\<close> listener registered by handleWebSocket. A throw of \<^verbatim>\<open>storage.put\<close>
  leaves the record as it was (the rejection is not handled).
\<close>

definition on_close :: "faults \<Rightarrow> string \<Rightarrow> ws \<Rightarrow> int \<Rightarrow> ToolSession \<Rightarrow> ToolSession" where
  "on_close F sessionId server now st =
     (let st1 = st\<lparr>websockets := removeAll server (websockets st)\<rparr> in
      case getSessionData F st1 sessionId of
        None \<Rightarrow> st1
      | Some session \<Rightarrow>
          (let n = max 0 (websocketConnections session - 1);
               session1 = session\<lparr>websocketConnections := n\<rparr>;
               session2 = (if n = 0 then session1\<lparr>status := Inactive\<rparr> else session1);
               session3 = session2\<lparr>lastActivity := ISO now\<rparr>
           in case put_error F (session_key sessionId) of
                Some e \<Rightarrow> st1
              | None \<Rightarrow>
                  st1\<lparr>storage := AList.update (session_key sessionId) session3 (storage st1)\<rparr>))"

text \<open>
  What the runtime does to one session's connections over time: an upgrade request
  arrives (\<open>Attach\<close>), or the close event of an accepted socket fires (\<open>Detach\<close>).
\<close>

datatype connection_op = Attach ws int | Detach ws int

fun connection_step :: "faults \<Rightarrow> string \<Rightarrow> connection_op \<Rightarrow> ToolSession \<Rightarrow> ToolSession" where
  "connection_step F sessionId (Attach w now) st = snd (handleWebSocket F sessionId w now st)"
| "connection_step F sessionId (Detach w now) st = on_close F sessionId w now st"

fun run_connections :: "faults \<Rightarrow> string \<Rightarrow> connection_op list \<Rightarrow> ToolSession \<Rightarrow> ToolSession" where
  "run_connections F sessionId [] st = st"
| "run_connections F sessionId (a # ops) st =
     run_connections F sessionId ops (connection_step F sessionId a st)"

text \<open>
  The sequences the runtime can produce: every WebSocketPair is new, and a close event
  fires once, on a socket accepted earlier. \<open>live\<close> are the sockets accepted and not
  yet closed.
\<close>

fun well_formed :: "ws list \<Rightarrow> connection_op list \<Rightarrow> bool" where
  "well_formed live [] = True"
| "well_formed live (Attach w now # ops) = (w \<notin> set live \<and> well_formed (w # live) ops)"
| "well_formed live (Detach w now # ops) = (w \<in> set live \<and> well_formed (removeAll w live) ops)"

fun is_attach :: "connection_op \<Rightarrow> bool" where
  "is_attach (Attach w now) = True"
| "is_attach (Detach w now) = False"

definition attaches :: "connection_op list \<Rightarrow> nat" where
  "attaches ops = length (filter is_attach ops)"

definition detaches :: "connection_op list \<Rightarrow> nat" where
  "detaches ops = length (filter (\<lambda>a. \<not> is_attach a) ops)"

text \<open>
  \<^verbatim>\<open>broadcastToWebSockets(message)\<close>: the loop visits the sockets of the set in
  insertion order; deleting the visited socket does not disturb the visit of the others.
\<close>

fun broadcast_loop :: "faults \<Rightarrow> StreamMessage \<Rightarrow> ws list \<Rightarrow> ToolSession \<Rightarrow> ToolSession" where
  "broadcast_loop F m [] st = st"
| "broadcast_loop F m (w # rest) st =
     broadcast_loop F m rest
       (case send_error F w of
          Some e \<Rightarrow> st\<lparr>websockets := removeAll w (websockets st)\<rparr>
        | None \<Rightarrow> deliver w m st)"

definition broadcastToWebSockets :: "faults \<Rightarrow> StreamMessage \<Rightarrow> ToolSession \<Rightarrow> ToolSession" where
  "broadcastToWebSockets F m st = broadcast_loop F m (websockets st) st"

section \<open>deleteSession\<close>

definition deleteSession ::
  "faults \<Rightarrow> string \<Rightarrow> int \<Rightarrow> ToolSession \<Rightarrow> Response \<times> ToolSession" where
  "deleteSession F sessionId now st =
     (let st1 = broadcastToWebSockets F (SessionDeleting (ISO now) sessionId) st;
          st2 = st1\<lparr>closed := closed st1 @ websockets st1, websockets := []\<rparr>
      in case delete_error F (session_key sessionId) of
           Some e \<Rightarrow> (Response 500 (Text ''Delete failed''), st2)
         | None \<Rightarrow>
             (if map_of (storage st2) (session_key sessionId) = None
              then (Response 404 (Text ''Session not found''), st2)
              else (Response 200 (Text ''Session deleted''),
                    st2\<lparr>storage := AList.delete (session_key sessionId) (storage st2)\<rparr>)))"

section \<open>The alarm: cleanup of inactive sessions\<close>

definition startsWith :: "string \<Rightarrow> string \<Rightarrow> bool" where
  "startsWith s p = (take (length p) s = p)"

definition inactive :: "int \<Rightarrow> SessionData \<Rightarrow> bool" where
  "inactive oneHourAgo sessionData =
     ((case getTime (lastActivity sessionData) of
         None \<Rightarrow> False
       | Some t \<Rightarrow> t < oneHourAgo)
      \<and> websocketConnections sessionData = 0)"

text \<open>
  The loop over the snapshot returned by \<^verbatim>\<open>storage.list()\<close>. \<open>Inl\<close> is a throw of
  \<^verbatim>\<open>storage.delete\<close>, with the state reached by then.
\<close>

fun sweep ::
  "faults \<Rightarrow> int \<Rightarrow> (string \<times> SessionData) list \<Rightarrow> ToolSession \<Rightarrow> (string \<times> ToolSession) + ToolSession" where
  "sweep F oneHourAgo [] st = Inr st"
| "sweep F oneHourAgo ((k, sessionData) # rest) st =
     (if startsWith k ''session:'' \<and> inactive oneHourAgo sessionData then
        (case delete_error F k of
           Some e \<Rightarrow> Inl (e, st)
         | None \<Rightarrow>
             sweep F oneHourAgo rest
               (st\<lparr>storage := AList.delete k (storage st),
                   console := console st
                     @ [ConsoleLog (''Cleaned up inactive session: ''
                          @ session_id sessionData)]\<rparr>))
      else sweep F oneHourAgo rest st)"

text \<open>
  \<^verbatim>\<open>storage.list()\<close> returns the entries in ascending order of their keys, compared
  byte by byte.
\<close>

definition storage_list :: "ToolSession \<Rightarrow> (string \<times> SessionData) list" where
  "storage_list st = sort_key fst (storage st)"

definition alarm :: "faults \<Rightarrow> int \<Rightarrow> ToolSession \<Rightarrow> ToolSession" where
  "alarm F now st =
     (case list_error F of
        Some e \<Rightarrow> st\<lparr>console := console st @ [ConsoleError ''Session cleanup failed:'' e]\<rparr>
      | None \<Rightarrow>
          (case sweep F (now - 60 * 60 * 1000) (storage_list st) st of
             Inl (e, st1) \<Rightarrow>
               st1\<lparr>console := console st1 @ [ConsoleError ''Session cleanup failed:'' e]\<rparr>
           | Inr st1 \<Rightarrow> st1\<lparr>alarmTime := Some (now + 30 * 60 * 1000)\<rparr>))"

section \<open>handleToolExecutionRequest: the relay of the backend feed\<close>

text \<open>\<^verbatim>\<open>toolExecutions.find(e => e.id === executionId)\<close>: the first match.\<close>

fun find_execution :: "string \<Rightarrow> tool_execution list \<Rightarrow> tool_execution option" where
  "find_execution executionId [] = None"
| "find_execution executionId (e # es) =
     (if exec_id e = executionId then Some e else find_execution executionId es)"

text \<open>Assignments to the object that \<^verbatim>\<open>find\<close> returned change that element in place.\<close>

fun update_execution ::
  "string \<Rightarrow> (tool_execution \<Rightarrow> tool_execution) \<Rightarrow> tool_execution list \<Rightarrow> tool_execution list" where
  "update_execution executionId f [] = []"
| "update_execution executionId f (e # es) =
     (if exec_id e = executionId then f e # es else e # update_execution executionId f es)"

text \<open>\<^verbatim>\<open>a || b\<close> on values that are a number or undefined: 0 and undefined are falsy.\<close>

definition or_else :: "int option \<Rightarrow> int option \<Rightarrow> int option" where
  "or_else a b = (case a of None \<Rightarrow> b | Some n \<Rightarrow> if n = 0 then b else Some n)"

text \<open>
  The assignment of lines 259-261,
  \<^verbatim>\<open>execution.progress = parsedData.data?.progress || execution.progress\<close>.
\<close>

definition relay_progress :: "string \<Rightarrow> int option \<Rightarrow> SessionData \<Rightarrow> SessionData" where
  "relay_progress executionId p session =
     session\<lparr>toolExecutions :=
       update_execution executionId (\<lambda>e. e\<lparr>progress := or_else p (progress e)\<rparr>)
         (toolExecutions session)\<rparr>"

text \<open>The assignments of lines 290-294 (the feed ended) and of lines 303-306 (the catch block).\<close>

definition mark_completed :: "string \<Rightarrow> int \<Rightarrow> SessionData \<Rightarrow> SessionData" where
  "mark_completed executionId now session =
     session\<lparr>toolExecutions :=
       update_execution executionId
         (\<lambda>e. e\<lparr>exec_status := Completed, endTime := Some (ISO now), progress := Some 100\<rparr>)
         (toolExecutions session)\<rparr>"

definition mark_failed :: "string \<Rightarrow> int \<Rightarrow> SessionData \<Rightarrow> SessionData" where
  "mark_failed executionId now session =
     session\<lparr>toolExecutions :=
       update_execution executionId
         (\<lambda>e. e\<lparr>exec_status := Failed, endTime := Some (ISO now)\<rparr>)
         (toolExecutions session)\<rparr>"

text \<open>\<^verbatim>\<open>chunk.split('\n')\<close>.\<close>

fun split_lines :: "string \<Rightarrow> string list" where
  "split_lines [] = [[]]"
| "split_lines (c # cs) =
     (if c = CHR 0x0A then [] # split_lines cs
      else (case split_lines cs of [] \<Rightarrow> [[c]] | l # ls \<Rightarrow> (c # l) # ls))"

text \<open>
  The local variable \<^verbatim>\<open>session\<close> of the handler (the object read at line 194, mutated
  in place and written back on every put) together with the instance state.
\<close>

type_synonym relay_state = "SessionData option \<times> ToolSession"

text \<open>
  The body of the inner try block once \<^verbatim>\<open>JSON.parse\<close> has returned \<open>parsedData\<close>:
  \<open>Inl\<close> is a throw of \<^verbatim>\<open>storage.put\<close> or \<^verbatim>\<open>websocket.send\<close>.
\<close>

definition relay_event ::
  "faults \<Rightarrow> string \<Rightarrow> string \<Rightarrow> ws \<Rightarrow> backend_event \<Rightarrow> relay_state \<Rightarrow> relay_state + relay_state" where
  "relay_event F sessionId executionId websocket parsedData rs =
     (case
        (case rs of
           (None, st) \<Rightarrow> Inr rs
         | (Some session, st) \<Rightarrow>
             (if ev_type parsedData = Some ''progress'' then
                (case find_execution executionId (toolExecutions session) of
                   None \<Rightarrow> Inr rs
                 | Some execution \<Rightarrow>
                     (let session1 = relay_progress executionId (ev_progress parsedData) session
                      in case put_error F (session_key sessionId) of
                           Some e \<Rightarrow> Inl (Some session1, st)
                         | None \<Rightarrow>
                             Inr (Some session1,
                                  st\<lparr>storage :=
                                    AList.update (session_key sessionId) session1 (storage st)\<rparr>)))
              else Inr rs))
      of
        Inl rs1 \<Rightarrow> Inl rs1
      | Inr (session1, st1) \<Rightarrow>
          (case send_error F websocket of
             Some e \<Rightarrow> Inl (session1, st1)
           | None \<Rightarrow>
               Inr (session1,
                    deliver websocket
                      (Forwarded parsedData executionId
                         (case ev_source parsedData of
                            None \<Rightarrow> ''backend-via-durable-object''
                          | Some src \<Rightarrow> if src = [] then ''backend-via-durable-object'' else src))
                      st1)))"

text \<open>
  One turn of \<^verbatim>\<open>for (const line of lines)\<close>. \<open>parse\<close> is \<^verbatim>\<open>JSON.parse\<close> followed by
  the reading of the three properties; \<open>None\<close> when that throws. The catch block sends
  the raw text; a throw there leaves the loop with the message.
\<close>

definition relay_line ::
  "faults \<Rightarrow> (string \<Rightarrow> backend_event option) \<Rightarrow> string \<Rightarrow> string \<Rightarrow> string option \<Rightarrow> ws \<Rightarrow> int
     \<Rightarrow> string \<Rightarrow> relay_state \<Rightarrow> (string \<times> relay_state) + relay_state" where
  "relay_line F parse sessionId executionId request_id websocket now line rs =
     (if startsWith line ''data: '' then
        (let eventData = drop 6 line in
         case
           (case parse eventData of
              None \<Rightarrow> Inl rs
            | Some parsedData \<Rightarrow> relay_event F sessionId executionId websocket parsedData rs)
         of
           Inr rs1 \<Rightarrow> Inr rs1
         | Inl (session1, st1) \<Rightarrow>
             (case send_error F websocket of
                Some e \<Rightarrow> Inl (e, (session1, st1))
              | None \<Rightarrow>
                  Inr (session1,
                       deliver websocket (RawData (ISO now) eventData sessionId request_id) st1)))
      else Inr rs)"

fun relay_lines ::
  "faults \<Rightarrow> (string \<Rightarrow> backend_event option) \<Rightarrow> string \<Rightarrow> string \<Rightarrow> string option \<Rightarrow> ws \<Rightarrow> int
     \<Rightarrow> string list \<Rightarrow> relay_state \<Rightarrow> (string \<times> relay_state) + relay_state" where
  "relay_lines F parse sessionId executionId request_id websocket now [] rs = Inr rs"
| "relay_lines F parse sessionId executionId request_id websocket now (line # lines) rs =
     (case relay_line F parse sessionId executionId request_id websocket now line rs of
        Inl x \<Rightarrow> Inl x
      | Inr rs1 \<Rightarrow> relay_lines F parse sessionId executionId request_id websocket now lines rs1)"

text \<open>
  The handler is not one step. It waits at \<^verbatim>\<open>await fetch\<close> (line 222) and at every
  \<^verbatim>\<open>await reader.read()\<close> (line 245), and while it waits the instance handles other
  events: sockets attach and close, other requests run their own handlers. An
  \<open>activity\<close> is what those events have done to the instance by the time the handler
  goes on. The log of delivered messages keeps to the messages of the call that is
  followed: what the others send in the meantime is not entered. The local variable
  \<^verbatim>\<open>session\<close> is out of the reach of any activity.
\<close>

type_synonym activity = "ToolSession \<Rightarrow> ToolSession"

definition while_suspended :: "activity \<Rightarrow> ToolSession \<Rightarrow> ToolSession" where
  "while_suspended others st = (others st)\<lparr>delivered := delivered st\<rparr>"

text \<open>
  The \<^verbatim>\<open>while (true)\<close> loop over \<^verbatim>\<open>reader.read()\<close>: each chunk with what the others
  did while the read was awaited and the time the chunk arrived at.
\<close>

fun relay_chunks ::
  "faults \<Rightarrow> (string \<Rightarrow> backend_event option) \<Rightarrow> string \<Rightarrow> string \<Rightarrow> string option \<Rightarrow> ws
     \<Rightarrow> (activity \<times> int \<times> string) list \<Rightarrow> relay_state \<Rightarrow> (string \<times> relay_state) + relay_state" where
  "relay_chunks F parse sessionId executionId request_id websocket [] rs = Inr rs"
| "relay_chunks F parse sessionId executionId request_id websocket ((others, now, chunk) # rest)
       (session, st) =
     (case relay_lines F parse sessionId executionId request_id websocket now
             (split_lines chunk) (session, while_suspended others st) of
        Inl x \<Rightarrow> Inl x
      | Inr rs1 \<Rightarrow> relay_chunks F parse sessionId executionId request_id websocket rest rs1)"

text \<open>
  What the backend does with the request: \<^verbatim>\<open>fetch\<close> rejects, the response has no
  body, or the body is read chunk by chunk until \<^verbatim>\<open>done\<close> or until a read throws;
  the activity of a feed is what the others did while that last read was awaited.
\<close>

datatype feed_end = EndOfStream | ReadError string

datatype backend =
    FetchError string
  | NoBody
  | Feed "(activity \<times> int \<times> string) list" activity feed_end

record execution_request =
  tool_name :: string
  req_agent :: string
  request_id :: "string option"

text \<open>Lines 194-205: the new execution is appended and the record written back.\<close>

definition start_execution ::
  "faults \<Rightarrow> string \<Rightarrow> execution_request \<Rightarrow> string \<Rightarrow> int \<Rightarrow> ToolSession
     \<Rightarrow> (string \<times> ToolSession) + relay_state" where
  "start_execution F sessionId messageData executionId now st =
     (case getSessionData F st sessionId of
        None \<Rightarrow> Inr (None, st)
      | Some session \<Rightarrow>
          (let session1 = session\<lparr>toolExecutions := toolExecutions session @
                 [\<lparr> exec_id = executionId, toolName = tool_name messageData,
                    agent = req_agent messageData, exec_status = Running,
                    startTime = ISO now, endTime = None, progress = Some 0 \<rparr>]\<rparr>
           in case put_error F (session_key sessionId) of
                Some e \<Rightarrow> Inl (e, st)
              | None \<Rightarrow>
                  Inr (Some session1,
                       st\<lparr>storage :=
                         AList.update (session_key sessionId) session1 (storage st)\<rparr>)))"

text \<open>
  Lines 192-219, the handler up to the call of \<^verbatim>\<open>fetch\<close>: the execution is recorded
  and the starting message sent on the requesting socket.
\<close>

definition begin_execution ::
  "faults \<Rightarrow> string \<Rightarrow> ws \<Rightarrow> execution_request \<Rightarrow> string \<Rightarrow> int \<Rightarrow> ToolSession
     \<Rightarrow> (string \<times> ToolSession) + relay_state" where
  "begin_execution F sessionId websocket messageData executionId now st =
     (case start_execution F sessionId messageData executionId now st of
        Inl x \<Rightarrow> Inl x
      | Inr (session, st1) \<Rightarrow>
          (case send_error F websocket of
             Some e \<Rightarrow> Inl (e, st1)
           | None \<Rightarrow>
               Inr (session,
                    deliver websocket
                      (ExecutionStarting (ISO now) (req_agent messageData)
                         (tool_name messageData) executionId (request_id messageData)) st1)))"

text \<open>Lines 288-297: the feed ended; the execution is marked completed.\<close>

definition finish_execution ::
  "faults \<Rightarrow> string \<Rightarrow> string \<Rightarrow> int \<Rightarrow> relay_state \<Rightarrow> (string \<times> ToolSession) + ToolSession" where
  "finish_execution F sessionId executionId now rs =
     (case rs of
        (None, st) \<Rightarrow> Inr st
      | (Some session, st) \<Rightarrow>
          (case find_execution executionId (toolExecutions session) of
             None \<Rightarrow> Inr st
           | Some execution \<Rightarrow>
               (case put_error F (session_key sessionId) of
                  Some e \<Rightarrow> Inl (e, st)
                | None \<Rightarrow>
                    Inr (st\<lparr>storage :=
                      AList.update (session_key sessionId)
                        (mark_completed executionId now session) (storage st)\<rparr>))))"

text \<open>
  The try block of the handler, lines 192-298. \<open>fetching\<close> is what the others did
  while \<^verbatim>\<open>fetch\<close> was awaited.
\<close>

definition try_execution ::
  "faults \<Rightarrow> (string \<Rightarrow> backend_event option) \<Rightarrow> string \<Rightarrow> ws \<Rightarrow> execution_request \<Rightarrow> string
     \<Rightarrow> int \<Rightarrow> activity \<Rightarrow> backend \<Rightarrow> int \<Rightarrow> ToolSession
     \<Rightarrow> (string \<times> ToolSession) + ToolSession" where
  "try_execution F parse sessionId websocket messageData executionId started fetching
       response ended st =
     (case begin_execution F sessionId websocket messageData executionId started st of
        Inl x \<Rightarrow> Inl x
      | Inr (session, st1) \<Rightarrow>
          (let st2 = while_suspended fetching st1
           in case response of
                FetchError e \<Rightarrow> Inl (e, st2)
              | NoBody \<Rightarrow> Inl (''No response body from backend'', st2)
              | Feed chunks others fin \<Rightarrow>
                  (case relay_chunks F parse sessionId executionId (request_id messageData)
                          websocket chunks (session, st2) of
                     Inl (e, (session3, st3)) \<Rightarrow> Inl (e, st3)
                   | Inr (session3, st3) \<Rightarrow>
                       (case fin of
                          ReadError e \<Rightarrow> Inl (e, while_suspended others st3)
                        | EndOfStream \<Rightarrow>
                            finish_execution F sessionId executionId ended
                              (session3, while_suspended others st3)))))"

text \<open>
  The catch block, lines 299-319: the record is read again from the storage, the
  execution marked failed, and one error message sent on the requesting socket. \<open>Inl\<close>
  is an exception that leaves the handler.
\<close>

definition fail_execution ::
  "faults \<Rightarrow> string \<Rightarrow> ws \<Rightarrow> execution_request \<Rightarrow> string \<Rightarrow> int \<Rightarrow> string \<Rightarrow> ToolSession
     \<Rightarrow> (string \<times> ToolSession) + ToolSession" where
  "fail_execution F sessionId websocket messageData executionId now message st =
     (case
        (case getSessionData F st sessionId of
           None \<Rightarrow> Inr st
         | Some session \<Rightarrow>
             (case find_execution executionId (toolExecutions session) of
                None \<Rightarrow> Inr st
              | Some execution \<Rightarrow>
                  (case put_error F (session_key sessionId) of
                     Some e \<Rightarrow> Inl (e, st)
                   | None \<Rightarrow>
                       Inr (st\<lparr>storage :=
                         AList.update (session_key sessionId)
                           (mark_failed executionId now session) (storage st)\<rparr>))))
      of
        Inl x \<Rightarrow> Inl x
      | Inr st1 \<Rightarrow>
          (case send_error F websocket of
             Some e \<Rightarrow> Inl (e, st1)
           | None \<Rightarrow>
               Inr (deliver websocket
                      (ExecutionError (ISO now) message executionId sessionId
                         (request_id messageData)) st1)))"

definition handleToolExecutionRequest ::
  "faults \<Rightarrow> (string \<Rightarrow> backend_event option) \<Rightarrow> string \<Rightarrow> ws \<Rightarrow> execution_request \<Rightarrow> string
     \<Rightarrow> int \<Rightarrow> activity \<Rightarrow> backend \<Rightarrow> int \<Rightarrow> ToolSession
     \<Rightarrow> (string \<times> ToolSession) + ToolSession" where
  "handleToolExecutionRequest F parse sessionId websocket messageData executionId started
       fetching response ended st =
     (case try_execution F parse sessionId websocket messageData executionId started fetching
             response ended st of
        Inr st1 \<Rightarrow> Inr st1
      | Inl (message, st1) \<Rightarrow>
          fail_execution F sessionId websocket messageData executionId ended message st1)"

section \<open>Notions used in the statements\<close>

text \<open>
  The snapshot entries whose key the alarm deletes, and the state an attempted sweep
  or handler ends in, whether it threw or not.
\<close>

definition swept :: "int \<Rightarrow> string \<times> SessionData \<Rightarrow> bool" where
  "swept oneHourAgo p = (startsWith (fst p) ''session:'' \<and> inactive oneHourAgo (snd p))"

fun outcome :: "(string \<times> ToolSession) + ToolSession \<Rightarrow> ToolSession" where
  "outcome (Inl (e, st)) = st"
| "outcome (Inr st) = st"

text \<open>
  The reason of a failed backend call (\<open>None\<close> when the feed ended cleanly), and the
  activities of all the suspensions of one handler run, in their order.
\<close>

fun failure_reason :: "backend \<Rightarrow> string option" where
  "failure_reason (FetchError e) = Some e"
| "failure_reason NoBody = Some ''No response body from backend''"
| "failure_reason (Feed chunks others EndOfStream) = None"
| "failure_reason (Feed chunks others (ReadError e)) = Some e"

fun suspensions :: "activity \<Rightarrow> backend \<Rightarrow> activity list" where
  "suspensions fetching (FetchError e) = [fetching]"
| "suspensions fetching NoBody = [fetching]"
| "suspensions fetching (Feed chunks others fin) = fetching # map fst chunks @ [others]"

text \<open>
  The record a handler holds after line 203: the record it read, with its own execution
  after the executions read. And the state of that execution as long as the relay loop
  runs.
\<close>

definition appended :: "SessionData \<Rightarrow> tool_execution \<Rightarrow> SessionData" where
  "appended s0 own = s0\<lparr>toolExecutions := toolExecutions s0 @ [own]\<rparr>"

definition own_running :: "string \<Rightarrow> tool_execution \<Rightarrow> bool" where
  "own_running executionId own =
     (exec_id own = executionId \<and> exec_status own = Running \<and> endTime own = None)"

text \<open>
  The messages the relay loop sends for the lines of the feed: a forwarded event tagged
  with the execution id, whatever its type, or the raw text. The source of a forwarded
  event is \<^verbatim>\<open>parsedData.source || 'backend-via-durable-object'\<close>.
\<close>

definition forwarded_source :: "backend_event \<Rightarrow> string" where
  "forwarded_source ev =
     (case ev_source ev of
        None \<Rightarrow> ''backend-via-durable-object''
      | Some src \<Rightarrow> if src = [] then ''backend-via-durable-object'' else src)"

fun is_feed_message :: "string \<Rightarrow> StreamMessage \<Rightarrow> bool" where
  "is_feed_message executionId (Forwarded ev eid src) = (eid = executionId)"
| "is_feed_message executionId (RawData t txt sid rid) = True"
| "is_feed_message executionId m = False"

definition feed_messages :: "ws \<Rightarrow> string \<Rightarrow> (ws \<times> StreamMessage) list \<Rightarrow> bool" where
  "feed_messages websocket executionId msgs =
     list_all (\<lambda>x. fst x = websocket \<and> is_feed_message executionId (snd x)) msgs"

text \<open>
  What an activity may leave alone: the stored record of the session as a whole, or at
  least the execution in it.
\<close>

definition stored_execution :: "string \<Rightarrow> string \<Rightarrow> ToolSession \<Rightarrow> bool" where
  "stored_execution sessionId executionId st =
     (case map_of (storage st) (session_key sessionId) of
        None \<Rightarrow> False
      | Some stored \<Rightarrow> find_execution executionId (toolExecutions stored) \<noteq> None)"

definition keeps_execution :: "string \<Rightarrow> string \<Rightarrow> activity \<Rightarrow> bool" where
  "keeps_execution sessionId executionId others =
     (\<forall>st. stored_execution sessionId executionId st
           \<longrightarrow> stored_execution sessionId executionId (others st))"

definition keeps_record :: "string \<Rightarrow> activity \<Rightarrow> bool" where
  "keeps_record sessionId others =
     (\<forall>st. map_of (storage (others st)) (session_key sessionId)
           = map_of (storage st) (session_key sessionId))"

text \<open>The execution the storage holds under an id of a session, if any.\<close>

definition stored_find :: "string \<Rightarrow> string \<Rightarrow> ToolSession \<Rightarrow> tool_execution option" where
  "stored_find sessionId executionId st =
     (case map_of (storage st) (session_key sessionId) of
        None \<Rightarrow> None
      | Some stored \<Rightarrow> find_execution executionId (toolExecutions stored))"

text \<open>
  For the proofs about the relay loop: the log of delivered messages has only grown, by
  feed messages on the requesting socket.
\<close>

definition extends :: "ws \<Rightarrow> string \<Rightarrow> ToolSession \<Rightarrow> ToolSession \<Rightarrow> bool" where
  "extends websocket executionId st st1 =
     (\<exists>msgs. delivered st1 = delivered st @ msgs \<and> feed_messages websocket executionId msgs)"

text \<open>
  What the relay loop keeps, whatever the feed holds: it does not throw, the handler's
  record is the record read with the own execution, still running, after it, and the
  messages sent are feed messages on the requesting socket. In the storage, the record
  stays equal to the handler's if it was, and the execution stays stored if it was.
\<close>

definition kept ::
  "ws \<Rightarrow> string \<Rightarrow> string \<Rightarrow> SessionData \<Rightarrow> tool_execution \<Rightarrow> ToolSession
     \<Rightarrow> tool_execution \<Rightarrow> ToolSession \<Rightarrow> bool" where
  "kept websocket sessionId executionId s0 own st own1 st1 =
     (own_running executionId own1
      \<and> extends websocket executionId st st1
      \<and> (map_of (storage st) (session_key sessionId) = Some (appended s0 own)
           \<longrightarrow> map_of (storage st1) (session_key sessionId) = Some (appended s0 own1))
      \<and> (stored_execution sessionId executionId st
           \<longrightarrow> stored_execution sessionId executionId st1))"

section \<open>Sample data\<close>

text \<open>The body \<^verbatim>\<open>{}\<close> of a create request.\<close>

definition no_fields :: session_fields where
  "no_fields = \<lparr> f_id = None, f_createdAt = None, f_updatedAt = None, f_status = None,
     f_toolExecutions = None, f_websocketConnections = None, f_lastActivity = None \<rparr>"

text \<open>A session with two sockets attached, and an instance holding it.\<close>

definition busy_session :: SessionData where
  "busy_session = \<lparr> session_id = ''s1'', createdAt = ISO 1000, updatedAt = ISO 1000,
     status = Streaming, toolExecutions = [], websocketConnections = 2,
     lastActivity = ISO 1000 \<rparr>"

definition busy_state :: ToolSession where
  "busy_state = \<lparr> storage = [(''session:s1'', busy_session)], websockets = [1, 2],
     delivered = [], closed = [], alarmTime = None, console = [] \<rparr>"


text \<open>Socket 2 is broken: every send on it throws.\<close>

definition one_broken :: faults where
  "one_broken = no_faults\<lparr>send_error := (\<lambda>w. if w = 2 then Some ''peer vanished'' else None)\<rparr>"

text \<open>
  A stored session with the given time of last activity and number of connections, an
  instance holding three of them, the same instance with the entries put in the
  opposite order, and storages on which deleting the key of session \<open>a\<close>, or of
  session \<open>b\<close>, throws.
\<close>

definition stored_session :: "string \<Rightarrow> int \<Rightarrow> int \<Rightarrow> SessionData" where
  "stored_session sessionId t n =
     \<lparr> session_id = sessionId, createdAt = ISO 0, updatedAt = ISO 0,
       status = (if n = 0 then Inactive else Streaming), toolExecutions = [],
       websocketConnections = n, lastActivity = ISO t \<rparr>"

definition sweep_state :: ToolSession where
  "sweep_state = \<lparr> storage = [(''session:a'', stored_session ''a'' 0 0),
       (''session:b'', stored_session ''b'' 0 0), (''session:c'', stored_session ''c'' 0 1)],
     websockets = [], delivered = [], closed = [], alarmTime = None, console = [] \<rparr>"

definition reversed_state :: ToolSession where
  "reversed_state = sweep_state\<lparr>storage := rev (storage sweep_state)\<rparr>"

definition a_fails :: faults where
  "a_fails = no_faults\<lparr>delete_error :=
     (\<lambda>k. if k = ''session:a'' then Some ''storage unavailable'' else None)\<rparr>"

definition b_fails :: faults where
  "b_fails = no_faults\<lparr>delete_error :=
     (\<lambda>k. if k = ''session:b'' then Some ''storage unavailable'' else None)\<rparr>"

text \<open>
  A stand-in for \<^verbatim>\<open>JSON.parse\<close> that agrees with it on the texts used below: \<^verbatim>\<open>{}\<close>
  is an object without properties, \<^verbatim>\<open>{bad\<close> throws. And a chunk of two lines.
\<close>

definition sample_parse :: "string \<Rightarrow> backend_event option" where
  "sample_parse txt =
     (if txt = ''{}''
      then Some \<lparr> ev_type = None, ev_progress = None, ev_source = None, ev_json = ''{}'' \<rparr>
      else None)"

definition two_lines :: string where
  "two_lines = ''data: {bad'' @ [CHR 0x0A] @ ''tail''"

text \<open>
  An instance holding the session \<open>s1\<close> as createSession makes it from the body
  \<^verbatim>\<open>{}\<close>, and a run of two attaches followed by the two detaches.
\<close>

definition fresh_state :: ToolSession where
  "fresh_state = \<lparr> storage = [(''session:s1'', new_session ''s1'' 0)], websockets = [],
     delivered = [], closed = [], alarmTime = None, console = [] \<rparr>"

definition sample_ops :: "connection_op list" where
  "sample_ops = [Attach 1 10, Attach 2 20, Detach 1 30, Detach 2 40]"

text \<open>A tool_execution request as it arrives on a socket.\<close>

definition sample_request :: execution_request where
  "sample_request = \<lparr> tool_name = ''scan'', req_agent = ''bug_hunter'',
     request_id = Some ''req-1'' \<rparr>"








section \<open>Creating a session\<close>

text \<open>
  C1, as stated, fails. The claim: for an id that already exists, createSession returns
  the existing record unchanged and leaves the stored record as it was. Here the id
  \<open>s1\<close> is stored with two connections and status streaming; a create request with
  the body \<^verbatim>\<open>{}\<close> answers 201 with a new record and stores it in place of the old one.
\<close>

theorem createSession_overwrites_counterexample:
  "map_of (storage busy_state) (session_key ''s1'') = Some busy_session
   \<and> createSession no_faults ''s1'' (Some no_fields) 2000 busy_state =
       (Response 201 (Json (new_session ''s1'' 2000)),
        busy_state\<lparr>storage := [(''session:s1'', new_session ''s1'' 2000)]\<rparr>)
   \<and> new_session ''s1'' 2000 \<noteq> busy_session"
  by (simp add: createSession_def busy_state_def busy_session_def no_fields_def
      no_faults_def session_key_def Object_assign_def new_session_def Let_def)

text \<open>
  C1, amended: createSession never reads the stored record. For every session id,
  stored or not, a request whose body parses and whose write succeeds answers 201 with
  the record built from the defaults overlaid with the body, and that record is what the
  storage holds for the id afterwards.
\<close>

theorem createSession_replaces:
  assumes "put_error F (session_key sessionId) = None"
  shows "createSession F sessionId (Some initialData) now st =
           (Response 201 (Json (Object_assign (new_session sessionId now) initialData)),
            st\<lparr>storage := AList.update (session_key sessionId)
                  (Object_assign (new_session sessionId now) initialData) (storage st)\<rparr>)
         \<and> map_of (storage (snd (createSession F sessionId (Some initialData) now st)))
             (session_key sessionId)
           = Some (Object_assign (new_session sessionId now) initialData)"
  using assms by (simp add: createSession_def Let_def update_conv')

text \<open>The amended C1 at the stored session \<open>s1\<close>.\<close>

theorem createSession_replaces_witness:
  "put_error no_faults (session_key ''s1'') = None
   \<and> map_of (storage (snd (createSession no_faults ''s1'' (Some no_fields) 2000 busy_state)))
        (session_key ''s1'')
      = Some (new_session ''s1'' 2000)"
proof -
  have h: "put_error no_faults (session_key ''s1'') = None"
    by (simp add: no_faults_def)
  have a: "Object_assign (new_session ''s1'' 2000) no_fields = new_session ''s1'' 2000"
    by (simp add: Object_assign_def no_fields_def new_session_def)
  from createSession_replaces [OF h, of no_fields 2000 busy_state]
  have "map_of (storage (snd (createSession no_faults ''s1'' (Some no_fields) 2000 busy_state)))
          (session_key ''s1'')
        = Some (Object_assign (new_session ''s1'' 2000) no_fields)"
    by (rule conjunct2)
  with h a show ?thesis by simp
qed

section \<open>Broadcast\<close>

lemma broadcast_loop_delivered:
  "delivered (broadcast_loop F m wss st)
   = delivered st @ map (\<lambda>w. (w, m)) (filter (\<lambda>w. send_error F w = None) wss)"
  by (induction wss arbitrary: st) (auto simp: deliver_def split: option.splits)

lemma broadcast_loop_websockets:
  "websockets (broadcast_loop F m wss st)
   = filter (\<lambda>w. w \<in> set wss \<longrightarrow> send_error F w = None) (websockets st)"
proof (induction wss arbitrary: st)
  case Nil
  then show ?case by simp
next
  case (Cons w wss)
  show ?case
  proof (cases "send_error F w")
    case None
    then show ?thesis
      by (auto simp: Cons.IH deliver_def intro!: filter_cong)
  next
    case (Some e)
    then show ?thesis
      by (auto simp: Cons.IH removeAll_filter_not_eq intro!: filter_cong)
  qed
qed

lemma broadcast_loop_rest:
  "storage (broadcast_loop F m wss st) = storage st
   \<and> closed (broadcast_loop F m wss st) = closed st
   \<and> alarmTime (broadcast_loop F m wss st) = alarmTime st
   \<and> console (broadcast_loop F m wss st) = console st"
  by (induction wss arbitrary: st) (auto simp: deliver_def split: option.splits)

lemma broadcast_websockets:
  "websockets (broadcastToWebSockets F m st)
   = filter (\<lambda>w. send_error F w = None) (websockets st)"
  unfolding broadcastToWebSockets_def broadcast_loop_websockets
  by (intro filter_cong) auto

lemma broadcast_delivered:
  "delivered (broadcastToWebSockets F m st)
   = delivered st @ map (\<lambda>w. (w, m)) (filter (\<lambda>w. send_error F w = None) (websockets st))"
  unfolding broadcastToWebSockets_def by (rule broadcast_loop_delivered)

lemma broadcast_rest:
  "storage (broadcastToWebSockets F m st) = storage st
   \<and> closed (broadcastToWebSockets F m st) = closed st
   \<and> alarmTime (broadcastToWebSockets F m st) = alarmTime st
   \<and> console (broadcastToWebSockets F m st) = console st"
  unfolding broadcastToWebSockets_def by (rule broadcast_loop_rest)

text \<open>
  C5: when exactly one of the attached connections fails on delivery, the broadcast
  still delivers the message to each of the other N-1 connections, in the order of the
  set, removes the failed connection and no other from the set, and returns with the
  storage untouched.
\<close>

theorem broadcast_isolation:
  assumes "distinct (websockets st)"
    and "broken \<in> set (websockets st)"
    and "send_error F broken = Some e"
    and "\<forall>w \<in> set (websockets st). w \<noteq> broken \<longrightarrow> send_error F w = None"
  shows "delivered (broadcastToWebSockets F m st)
           = delivered st @ map (\<lambda>w. (w, m)) (removeAll broken (websockets st))
         \<and> websockets (broadcastToWebSockets F m st) = removeAll broken (websockets st)
         \<and> length (removeAll broken (websockets st)) = length (websockets st) - 1
         \<and> storage (broadcastToWebSockets F m st) = storage st"
proof -
  have ok: "filter (\<lambda>w. send_error F w = None) (websockets st)
            = removeAll broken (websockets st)"
    unfolding removeAll_filter_not_eq using assms(3,4)
    by (intro filter_cong) auto
  have len: "length (removeAll broken (websockets st)) = length (websockets st) - 1"
    using assms(1,2) by (simp add: distinct_remove1_removeAll [symmetric] length_remove1)
  show ?thesis
    by (simp add: broadcast_delivered broadcast_websockets broadcast_rest ok len)
qed

text \<open>C5 at two attached sockets, the second of them broken.\<close>

theorem broadcast_isolation_witness:
  "delivered (broadcastToWebSockets one_broken (SessionDeleting (ISO 7) ''s1'') busy_state)
     = [(1, SessionDeleting (ISO 7) ''s1'')]
   \<and> websockets (broadcastToWebSockets one_broken (SessionDeleting (ISO 7) ''s1'') busy_state)
     = [1]"
proof -
  have "delivered (broadcastToWebSockets one_broken (SessionDeleting (ISO 7) ''s1'') busy_state)
           = delivered busy_state @ map (\<lambda>w. (w, SessionDeleting (ISO 7) ''s1''))
               (removeAll 2 (websockets busy_state))
         \<and> websockets (broadcastToWebSockets one_broken (SessionDeleting (ISO 7) ''s1'') busy_state)
           = removeAll 2 (websockets busy_state)
         \<and> length (removeAll 2 (websockets busy_state)) = length (websockets busy_state) - 1
         \<and> storage (broadcastToWebSockets one_broken (SessionDeleting (ISO 7) ''s1'') busy_state)
           = storage busy_state"
    by (rule broadcast_isolation [where e = "''peer vanished''"])
       (simp_all add: busy_state_def one_broken_def no_faults_def)
  then show ?thesis by (simp add: busy_state_def)
qed

section \<open>Deleting a session\<close>

text \<open>
  C10: a delete request for an id that the storage does not hold still sends the
  shutdown message (of type connection) to every attached socket that accepts it,
  calls close on every socket left in the set, empties the set, and only then answers
  404; the stored records are as before.
\<close>

theorem deleteSession_absent:
  assumes "map_of (storage st) (session_key sessionId) = None"
    and "delete_error F (session_key sessionId) = None"
  shows "fst (deleteSession F sessionId now st) = Response 404 (Text ''Session not found'')
         \<and> delivered (snd (deleteSession F sessionId now st))
           = delivered st @ map (\<lambda>w. (w, SessionDeleting (ISO now) sessionId))
               (filter (\<lambda>w. send_error F w = None) (websockets st))
         \<and> closed (snd (deleteSession F sessionId now st))
           = closed st @ filter (\<lambda>w. send_error F w = None) (websockets st)
         \<and> websockets (snd (deleteSession F sessionId now st)) = []
         \<and> storage (snd (deleteSession F sessionId now st)) = storage st
         \<and> msg_type (SessionDeleting (ISO now) sessionId) = Some ''connection''"
  using assms
  by (simp add: deleteSession_def Let_def broadcast_delivered broadcast_websockets broadcast_rest)

text \<open>C10 at the unknown id \<open>zz\<close> with two sockets attached.\<close>

theorem deleteSession_absent_witness:
  "fst (deleteSession no_faults ''zz'' 7 busy_state) = Response 404 (Text ''Session not found'')
   \<and> delivered (snd (deleteSession no_faults ''zz'' 7 busy_state))
     = [(1, SessionDeleting (ISO 7) ''zz''), (2, SessionDeleting (ISO 7) ''zz'')]
   \<and> closed (snd (deleteSession no_faults ''zz'' 7 busy_state)) = [1, 2]
   \<and> websockets (snd (deleteSession no_faults ''zz'' 7 busy_state)) = []
   \<and> storage (snd (deleteSession no_faults ''zz'' 7 busy_state)) = storage busy_state"
proof -
  have h1: "map_of (storage busy_state) (session_key ''zz'') = None"
    by (simp add: busy_state_def session_key_def)
  have h2: "delete_error no_faults (session_key ''zz'') = None"
    by (simp add: no_faults_def)
  from deleteSession_absent [OF h1 h2, of 7] show ?thesis
    by (simp add: busy_state_def no_faults_def)
qed

section \<open>The alarm\<close>

lemma delete_filter: "AList.delete k al = filter (\<lambda>p. fst p \<noteq> k) al"
  by (induction al) (auto simp: AList.delete_eq)

lemma sweep_no_failure:
  assumes "\<forall>p \<in> set xs. delete_error F (fst p) = None"
  shows "\<exists>st1. sweep F h xs st = Inr st1
           \<and> storage st1 = filter (\<lambda>p. fst p \<notin> fst ` {q \<in> set xs. swept h q}) (storage st)
           \<and> console st1 = console st
               @ map (\<lambda>p. ConsoleLog (''Cleaned up inactive session: '' @ session_id (snd p)))
                   (filter (swept h) xs)"
  using assms
proof (induction xs arbitrary: st)
  case Nil
  then show ?case by simp
next
  case (Cons x xs)
  obtain k v where x: "x = (k, v)" by (cases x)
  show ?case
  proof (cases "swept h x")
    case True
    from Cons.prems have ok: "delete_error F k = None" "\<forall>p\<in>set xs. delete_error F (fst p) = None"
      by (auto simp: x)
    let ?st = "st\<lparr>storage := AList.delete k (storage st),
                   console := console st
                     @ [ConsoleLog (''Cleaned up inactive session: '' @ session_id v)]\<rparr>"
    from Cons.IH [OF ok(2), of ?st] obtain st1 where
      st1: "sweep F h xs ?st = Inr st1"
       "storage st1 = filter (\<lambda>p. fst p \<notin> fst ` {q \<in> set xs. swept h q}) (AList.delete k (storage st))"
       "console st1 = (console st
               @ [ConsoleLog (''Cleaned up inactive session: '' @ session_id v)])
               @ map (\<lambda>p. ConsoleLog (''Cleaned up inactive session: '' @ session_id (snd p)))
                   (filter (swept h) xs)"
      by auto
    have "filter (\<lambda>p. fst p \<notin> fst ` {q \<in> set xs. swept h q}) (AList.delete k (storage st))
          = filter (\<lambda>p. fst p \<notin> fst ` {q \<in> set (x # xs). swept h q}) (storage st)"
      using True unfolding delete_filter filter_filter
      by (intro filter_cong) (force simp: x)+
    moreover have "startsWith k ''session:'' \<and> inactive h v"
      using True by (simp add: x swept_def)
    moreover have "filter (swept h) (x # xs) = x # filter (swept h) xs"
      using True by simp
    ultimately show ?thesis
      using st1 ok(1) by (simp add: x)
  next
    case False
    from Cons.prems have ok: "\<forall>p\<in>set xs. delete_error F (fst p) = None"
      by auto
    from Cons.IH [OF ok, of st] obtain st1 where
      st1: "sweep F h xs st = Inr st1"
       "storage st1 = filter (\<lambda>p. fst p \<notin> fst ` {q \<in> set xs. swept h q}) (storage st)"
       "console st1 = console st
               @ map (\<lambda>p. ConsoleLog (''Cleaned up inactive session: '' @ session_id (snd p)))
                   (filter (swept h) xs)"
      by auto
    have sto: "filter (\<lambda>p. fst p \<notin> fst ` {q \<in> set xs. swept h q}) (storage st)
          = filter (\<lambda>p. fst p \<notin> fst ` {q \<in> set (x # xs). swept h q}) (storage st)"
      using False by (intro filter_cong) auto
    have eq: "sweep F h (x # xs) st = sweep F h xs st"
      using False by (auto simp add: x swept_def)
    have fl: "filter (swept h) (x # xs) = filter (swept h) xs"
      using False by simp
    show ?thesis
      unfolding eq fl by (rule exI [of _ st1]) (simp only: st1 sto [symmetric] simp_thms)
  qed
qed

lemma sweep_keeps:
  "\<exists>D. D \<subseteq> fst ` {q \<in> set xs. swept h q}
     \<and> storage (outcome (sweep F h xs st)) = filter (\<lambda>p. fst p \<notin> D) (storage st)"
proof (induction xs arbitrary: st)
  case Nil
  have "storage (outcome (sweep F h [] st)) = filter (\<lambda>p. fst p \<notin> {}) (storage st)"
    by simp
  then show ?case by blast
next
  case (Cons x xs)
  obtain k v where x: "x = (k, v)" by (cases x)
  show ?case
  proof (cases "swept h x \<and> delete_error F k = None")
    case True
    let ?st = "st\<lparr>storage := AList.delete k (storage st),
                   console := console st
                     @ [ConsoleLog (''Cleaned up inactive session: '' @ session_id v)]\<rparr>"
    from Cons.IH [of ?st] obtain D where
      D: "D \<subseteq> fst ` {q \<in> set xs. swept h q}"
         "storage (outcome (sweep F h xs ?st)) = filter (\<lambda>p. fst p \<notin> D) (storage ?st)"
      by blast
    have "storage (outcome (sweep F h (x # xs) st))
          = filter (\<lambda>p. fst p \<notin> insert k D) (storage st)"
      using True D(2) by (simp add: x swept_def delete_filter conj_commute)
    moreover have "insert k D \<subseteq> fst ` {q \<in> set (x # xs). swept h q}"
      using True D(1) by (force simp: x)
    ultimately show ?thesis by blast
  next
    case False
    show ?thesis
    proof (cases "swept h x")
      case True
      with False obtain e where "delete_error F k = Some e" by auto
      with True have "storage (outcome (sweep F h (x # xs) st))
          = filter (\<lambda>p. fst p \<notin> {}) (storage st)"
        by (simp add: x swept_def)
      then show ?thesis by blast
    next
      case nsw: False
      from Cons.IH [of st] obtain D where
        D: "D \<subseteq> fst ` {q \<in> set xs. swept h q}"
           "storage (outcome (sweep F h xs st)) = filter (\<lambda>p. fst p \<notin> D) (storage st)"
        by blast
      have "storage (outcome (sweep F h (x # xs) st)) = filter (\<lambda>p. fst p \<notin> D) (storage st)"
        using nsw D(2) by (auto simp add: x swept_def)
      moreover have "D \<subseteq> fst ` {q \<in> set (x # xs). swept h q}"
        using D(1) by auto
      ultimately show ?thesis by blast
    qed
  qed
qed

lemma alarm_storage:
  "storage (alarm F now st) =
     (case list_error F of Some e \<Rightarrow> storage st
      | None \<Rightarrow> storage (outcome (sweep F (now - 60 * 60 * 1000) (storage_list st) st)))"
  by (auto simp: alarm_def split: option.splits sum.splits)

lemma map_of_filter_keys:
  "map_of (filter (\<lambda>p. fst p \<notin> D) al) k = (if k \<in> D then None else map_of al k)"
  by (induction al) auto

lemma set_storage_list: "set (storage_list st) = set (storage st)"
  by (simp add: storage_list_def)

lemma alarm_keeps:
  assumes "distinct (map fst (storage st))" and "(k, s) \<in> set (storage st)"
    and "\<not> swept (now - 60 * 60 * 1000) (k, s)"
  shows "map_of (storage (alarm F now st)) k = Some s"
proof -
  have key: "k \<notin> fst ` {q \<in> set (storage st). swept (now - 60 * 60 * 1000) q}"
  proof
    assume "k \<in> fst ` {q \<in> set (storage st). swept (now - 60 * 60 * 1000) q}"
    then obtain v where v: "(k, v) \<in> set (storage st)" "swept (now - 60 * 60 * 1000) (k, v)"
      by auto
    from assms(1,2) v(1) have "v = s"
      by (meson eq_key_imp_eq_value)
    with v(2) assms(3) show False by simp
  qed
  have stored: "map_of (storage st) k = Some s"
    using assms(1,2) by simp
  show ?thesis
  proof (cases "list_error F")
    case (Some e)
    then show ?thesis by (simp add: alarm_storage stored)
  next
    case None
    obtain D where D: "D \<subseteq> fst ` {q \<in> set (storage st). swept (now - 60 * 60 * 1000) q}"
      "storage (outcome (sweep F (now - 60 * 60 * 1000) (storage_list st) st))
       = filter (\<lambda>p. fst p \<notin> D) (storage st)"
      using sweep_keeps [where xs = "storage_list st" and h = "now - 60 * 60 * 1000"
          and F = F and st = st]
      unfolding set_storage_list by blast
    from D(1) key have "k \<notin> D" by blast
    with None D(2) stored show ?thesis
      by (simp add: alarm_storage map_of_filter_keys)
  qed
qed

lemma alarm_deletes:
  assumes "list_error F = None" and "\<forall>p \<in> set (storage st). delete_error F (fst p) = None"
    and "(k, s) \<in> set (storage st)" and "swept (now - 60 * 60 * 1000) (k, s)"
  shows "map_of (storage (alarm F now st)) k = None"
proof -
  have ok: "\<forall>p \<in> set (storage_list st). delete_error F (fst p) = None"
    using assms(2) by (simp add: set_storage_list)
  from sweep_no_failure [OF ok, of "now - 60 * 60 * 1000" st] obtain st1 where
    st1: "sweep F (now - 60 * 60 * 1000) (storage_list st) st = Inr st1"
      "storage st1 = filter (\<lambda>p. fst p \<notin> fst ` {q \<in> set (storage st).
           swept (now - 60 * 60 * 1000) q}) (storage st)"
    unfolding set_storage_list by blast
  have "k \<in> fst ` {q \<in> set (storage st). swept (now - 60 * 60 * 1000) q}"
    using assms(3,4) by force
  with st1 assms(1) show ?thesis
    by (simp add: alarm_storage map_of_filter_keys)
qed

lemma swept_iff:
  "swept (now - 60 * 60 * 1000) (k, s) \<longleftrightarrow>
     startsWith k ''session:'' \<and> websocketConnections s = 0
     \<and> (\<exists>t. getTime (lastActivity s) = Some t \<and> now - t > 60 * 60 * 1000)"
proof -
  have "(case getTime (lastActivity s) of None \<Rightarrow> False | Some t \<Rightarrow> t < now - 60 * 60 * 1000)
        \<longleftrightarrow> (\<exists>t. getTime (lastActivity s) = Some t \<and> now - t > 60 * 60 * 1000)"
    by (cases "getTime (lastActivity s)") auto
  then show ?thesis
    unfolding swept_def inactive_def fst_conv snd_conv by blast
qed

text \<open>
  C8: for every session record the alarm examines (an entry of the storage whose key
  starts with \<open>session:\<close>), when the storage does not fail the record is deleted
  exactly when it has zero connections and its last activity is more than one hour
  before now; in every run the record is either deleted or left as it was; and a
  record with a positive number of connections is still stored afterwards, whatever its
  age and whatever fails.
\<close>

theorem sweep_deletes_exactly:
  assumes "distinct (map fst (storage st))"
    and "(k, s) \<in> set (storage st)"
    and "startsWith k ''session:''"
  shows "(list_error F = None \<and> (\<forall>p \<in> set (storage st). delete_error F (fst p) = None)
            \<longrightarrow> (map_of (storage (alarm F now st)) k = None
                   \<longleftrightarrow> websocketConnections s = 0
                       \<and> (\<exists>t. getTime (lastActivity s) = Some t \<and> now - t > 60 * 60 * 1000)))
         \<and> (map_of (storage (alarm F now st)) k = None
              \<or> map_of (storage (alarm F now st)) k = Some s)
         \<and> (0 < websocketConnections s \<longrightarrow> map_of (storage (alarm F now st)) k = Some s)"
proof -
  let ?old = "websocketConnections s = 0
     \<and> (\<exists>t. getTime (lastActivity s) = Some t \<and> now - t > 60 * 60 * 1000)"
  have sw: "swept (now - 60 * 60 * 1000) (k, s) \<longleftrightarrow> ?old"
    using assms(3) swept_iff [of now k s] by blast
  have keep: "map_of (storage (alarm F now st)) k = Some s" if "\<not> ?old"
    using alarm_keeps [OF assms(1,2), of now F] that sw by blast
  have gone: "map_of (storage (alarm F now st)) k = None"
    if "?old" "list_error F = None" "\<forall>p \<in> set (storage st). delete_error F (fst p) = None"
    using alarm_deletes [OF that(2,3) assms(2), of now] that(1) sw by blast
  have a: "list_error F = None \<and> (\<forall>p \<in> set (storage st). delete_error F (fst p) = None)
            \<longrightarrow> (map_of (storage (alarm F now st)) k = None \<longleftrightarrow> ?old)"
  proof (cases ?old)
    case True
    with gone show ?thesis by blast
  next
    case False
    with keep have "map_of (storage (alarm F now st)) k = Some s" by blast
    with False show ?thesis by simp
  qed
  have b: "map_of (storage (alarm F now st)) k = None
        \<or> map_of (storage (alarm F now st)) k = Some s"
  proof (cases "list_error F")
    case (Some e)
    with assms(1,2) show ?thesis by (simp add: alarm_storage)
  next
    case None
    obtain D where
      "storage (outcome (sweep F (now - 60 * 60 * 1000) (storage_list st) st))
       = filter (\<lambda>p. fst p \<notin> D) (storage st)"
      using sweep_keeps [where xs = "storage_list st" and h = "now - 60 * 60 * 1000"
          and F = F and st = st]
      by blast
    with None assms(1,2) show ?thesis
      by (simp add: alarm_storage map_of_filter_keys)
  qed
  have c: "0 < websocketConnections s \<longrightarrow> map_of (storage (alarm F now st)) k = Some s"
  proof
    assume "0 < websocketConnections s"
    then have "\<not> ?old" by simp
    with keep show "map_of (storage (alarm F now st)) k = Some s" by blast
  qed
  from a b c show ?thesis by blast
qed

text \<open>
  C8 at an idle session last active at time 0 and swept at time 10000000, and at a
  session of the same age with one connection.
\<close>

theorem sweep_deletes_exactly_witness:
  "map_of (storage (alarm no_faults 10000000 sweep_state)) ''session:b'' = None
   \<and> map_of (storage (alarm a_fails 10000000 sweep_state)) ''session:c''
     = Some (stored_session ''c'' 0 1)"
proof -
  have d: "distinct (map fst (storage sweep_state))"
    by (simp add: sweep_state_def)
  have b: "(''session:b'', stored_session ''b'' 0 0) \<in> set (storage sweep_state)"
    by (simp add: sweep_state_def)
  have c: "(''session:c'', stored_session ''c'' 0 1) \<in> set (storage sweep_state)"
    by (simp add: sweep_state_def)
  have p: "startsWith ''session:b'' ''session:''" "startsWith ''session:c'' ''session:''"
    by (simp_all add: startsWith_def)
  have ok: "list_error no_faults = None
            \<and> (\<forall>p \<in> set (storage sweep_state). delete_error no_faults (fst p) = None)"
    by (simp add: no_faults_def)
  have old: "websocketConnections (stored_session ''b'' 0 0) = 0
     \<and> (\<exists>t. getTime (lastActivity (stored_session ''b'' 0 0)) = Some t
          \<and> 10000000 - t > 60 * 60 * 1000)"
    by (simp add: stored_session_def)
  have live: "0 < websocketConnections (stored_session ''c'' 0 1)"
    by (simp add: stored_session_def)
  from sweep_deletes_exactly [OF d b p(1), of no_faults 10000000] ok old
  have "map_of (storage (alarm no_faults 10000000 sweep_state)) ''session:b'' = None"
    by blast
  moreover from sweep_deletes_exactly [OF d c p(2), of a_fails 10000000] live
  have "map_of (storage (alarm a_fails 10000000 sweep_state)) ''session:c''
        = Some (stored_session ''c'' 0 1)"
    by blast
  ultimately show ?thesis by blast
qed

text \<open>
  C9, as stated, fails. The claim: a failure at one key does not keep the sweep from
  examining and deleting the remaining keys. Here deleting the key of session \<open>a\<close>
  throws; session \<open>b\<close>, next in the listing, is idle and old enough and its key
  deletes without error, yet after the alarm it is still stored.
\<close>

theorem sweep_aborts_counterexample:
  "delete_error a_fails ''session:a'' = Some ''storage unavailable''
   \<and> delete_error a_fails ''session:b'' = None
   \<and> startsWith ''session:b'' ''session:''
   \<and> inactive (10000000 - 60 * 60 * 1000) (stored_session ''b'' 0 0)
   \<and> storage (alarm a_fails 10000000 sweep_state) = storage sweep_state
   \<and> map_of (storage (alarm a_fails 10000000 sweep_state)) ''session:b''
     = Some (stored_session ''b'' 0 0)"
  by (simp add: a_fails_def no_faults_def startsWith_def inactive_def stored_session_def
      alarm_def storage_list_def sweep_state_def)

lemma sweep_append:
  "sweep F h (xs @ ys) st =
     (case sweep F h xs st of Inl x \<Rightarrow> Inl x | Inr st1 \<Rightarrow> sweep F h ys st1)"
  by (induction xs arbitrary: st) (auto split: option.splits)

text \<open>
  C9, amended: a throw of the delete at one key ends the sweep. The keys listed before
  it, in ascending order, have been examined and the expired ones among them deleted
  and logged; the key at which the delete threw and every key listed after it are left
  in the storage unexamined, expired or not; and the failure is logged.
\<close>

theorem sweep_aborts_on_failure:
  assumes "list_error F = None"
    and "storage_list st = before @ (k, s) # rest"
    and "distinct (map fst (storage st))"
    and "\<forall>p \<in> set before. delete_error F (fst p) = None"
    and "startsWith k ''session:''"
    and "inactive (now - 60 * 60 * 1000) s"
    and "delete_error F k = Some e"
  shows "storage (alarm F now st)
           = filter (\<lambda>p. \<not> (p \<in> set before \<and> swept (now - 60 * 60 * 1000) p)) (storage st)
         \<and> (\<forall>p \<in> set ((k, s) # rest). p \<in> set (storage (alarm F now st)))
         \<and> console (alarm F now st)
           = console st
             @ map (\<lambda>p. ConsoleLog (''Cleaned up inactive session: '' @ session_id (snd p)))
                 (filter (swept (now - 60 * 60 * 1000)) before)
             @ [ConsoleError ''Session cleanup failed:'' e]"
proof -
  let ?h = "now - 60 * 60 * 1000"
  let ?D = "fst ` {q \<in> set before. swept ?h q}"
  from sweep_no_failure [OF assms(4), of ?h st] obtain st1 where
    st1: "sweep F ?h before st = Inr st1"
      "storage st1 = filter (\<lambda>p. fst p \<notin> ?D) (storage st)"
      "console st1 = console st
         @ map (\<lambda>p. ConsoleLog (''Cleaned up inactive session: '' @ session_id (snd p)))
             (filter (swept ?h) before)"
    by blast
  have stop: "sweep F ?h ((k, s) # rest) st1 = Inl (e, st1)"
    using assms(5,6,7) by simp
  have run: "sweep F ?h (storage_list st) st = Inl (e, st1)"
    unfolding assms(2) sweep_append st1(1) using stop by simp
  have sets: "set (storage st) = set before \<union> set ((k, s) # rest)"
    using set_storage_list [of st] unfolding assms(2) by auto
  have dl: "distinct (storage_list st)"
    using assms(3) by (simp add: storage_list_def distinct_map)
  then have apart: "set before \<inter> set ((k, s) # rest) = {}"
    unfolding assms(2) by auto
  have key: "fst p \<in> ?D \<longleftrightarrow> p \<in> set before \<and> swept ?h p" if "p \<in> set (storage st)" for p
  proof
    assume "fst p \<in> ?D"
    then obtain q where q: "q \<in> set before" "swept ?h q" "fst q = fst p" by auto
    from q(1) sets have "q \<in> set (storage st)" by auto
    with assms(3) that q(3) have "q = p"
      by (metis eq_key_imp_eq_value prod.collapse)
    with q show "p \<in> set before \<and> swept ?h p" by simp
  next
    assume "p \<in> set before \<and> swept ?h p"
    then show "fst p \<in> ?D" by force
  qed
  have a: "storage st1 = filter (\<lambda>p. \<not> (p \<in> set before \<and> swept ?h p)) (storage st)"
    unfolding st1(2) using key by (intro filter_cong) auto
  have b: "\<forall>p \<in> set ((k, s) # rest). p \<in> set (storage st1)"
    unfolding a using sets apart by auto
  from run assms(1) have "storage (alarm F now st) = storage st1"
    and "console (alarm F now st) = console st1 @ [ConsoleError ''Session cleanup failed:'' e]"
    by (simp_all add: alarm_def)
  with a b st1(3) show ?thesis by simp
qed

text \<open>
  The amended C9 at the three sessions put in the order \<open>c\<close>, \<open>b\<close>, \<open>a\<close>, where
  the delete throws at the key of \<open>b\<close>: the listing starts with \<open>a\<close>, which is
  deleted and logged, and \<open>b\<close> and \<open>c\<close> stay.
\<close>

theorem sweep_aborts_on_failure_witness:
  "storage (alarm b_fails 10000000 reversed_state)
     = [(''session:c'', stored_session ''c'' 0 1), (''session:b'', stored_session ''b'' 0 0)]
   \<and> console (alarm b_fails 10000000 reversed_state)
     = [ConsoleLog ''Cleaned up inactive session: a'',
        ConsoleError ''Session cleanup failed:'' ''storage unavailable'']"
proof -
  have "storage (alarm b_fails 10000000 reversed_state)
           = filter (\<lambda>p. \<not> (p \<in> set [(''session:a'', stored_session ''a'' 0 0)]
                             \<and> swept (10000000 - 60 * 60 * 1000) p))
               (storage reversed_state)
         \<and> (\<forall>p \<in> set ((''session:b'', stored_session ''b'' 0 0)
                        # [(''session:c'', stored_session ''c'' 0 1)]).
               p \<in> set (storage (alarm b_fails 10000000 reversed_state)))
         \<and> console (alarm b_fails 10000000 reversed_state)
           = console reversed_state
             @ map (\<lambda>p. ConsoleLog (''Cleaned up inactive session: '' @ session_id (snd p)))
                 (filter (swept (10000000 - 60 * 60 * 1000))
                    [(''session:a'', stored_session ''a'' 0 0)])
             @ [ConsoleError ''Session cleanup failed:'' ''storage unavailable'']"
    by (rule sweep_aborts_on_failure)
       (simp_all add: b_fails_def no_faults_def reversed_state_def sweep_state_def
          storage_list_def startsWith_def inactive_def stored_session_def)
  then show ?thesis
    by (simp add: swept_def startsWith_def inactive_def stored_session_def
        reversed_state_def sweep_state_def)
qed

section \<open>Attach and detach accounting\<close>

lemma well_formed_take: "well_formed live ops \<Longrightarrow> well_formed live (take n ops)"
proof (induction ops arbitrary: live n)
  case Nil
  then show ?case by simp
next
  case (Cons a ops)
  then show ?case
    by (cases n; cases a) auto
qed

lemma attach_stored:
  assumes "get_error F (session_key sessionId) = None"
    and "put_error F (session_key sessionId) = None"
    and "map_of (storage st) (session_key sessionId) = Some s"
  shows "map_of (storage (connection_step F sessionId (Attach w now) st)) (session_key sessionId)
         = Some (s\<lparr>websocketConnections := websocketConnections s + 1, status := Streaming,
                  lastActivity := ISO now\<rparr>)"
  using assms
  by (simp add: handleWebSocket_def getSessionData_def Let_def update_conv' deliver_def
      split: option.splits)

lemma detach_stored:
  assumes "get_error F (session_key sessionId) = None"
    and "put_error F (session_key sessionId) = None"
    and "map_of (storage st) (session_key sessionId) = Some s"
    and "0 < websocketConnections s"
  shows "map_of (storage (connection_step F sessionId (Detach w now) st)) (session_key sessionId)
         = Some (s\<lparr>websocketConnections := websocketConnections s - 1,
                  status := (if websocketConnections s = 1 then Inactive else status s),
                  lastActivity := ISO now\<rparr>)"
  using assms
  by (simp add: on_close_def getSessionData_def Let_def update_conv' max_def)

lemma run_connections_count:
  assumes "get_error F (session_key sessionId) = None"
    and "put_error F (session_key sessionId) = None"
    and "well_formed live ops"
    and "distinct live"
    and "map_of (storage st) (session_key sessionId) = Some s"
    and "websocketConnections s = int (length live)"
    and "status s = Streaming \<longleftrightarrow> 0 < websocketConnections s"
  shows "\<exists>s'. map_of (storage (run_connections F sessionId ops st)) (session_key sessionId)
                = Some s'
           \<and> websocketConnections s'
               = int (length live) + int (attaches ops) - int (detaches ops)
           \<and> 0 \<le> websocketConnections s'
           \<and> (status s' = Streaming \<longleftrightarrow> 0 < websocketConnections s')"
  using assms(3-)
proof (induction ops arbitrary: live st s)
  case Nil
  then show ?case by (simp add: attaches_def detaches_def)
next
  case (Cons a ops)
  show ?case
  proof (cases a)
    case (Attach w now)
    let ?s = "s\<lparr>websocketConnections := websocketConnections s + 1, status := Streaming,
                  lastActivity := ISO now\<rparr>"
    from Cons.prems(1) Attach have wf: "w \<notin> set live" "well_formed (w # live) ops" by auto
    have st: "map_of (storage (connection_step F sessionId a st)) (session_key sessionId) = Some ?s"
      unfolding Attach by (rule attach_stored [OF assms(1,2) Cons.prems(3)])
    have "\<exists>s'. map_of (storage (run_connections F sessionId ops (connection_step F sessionId a st)))
                 (session_key sessionId) = Some s'
           \<and> websocketConnections s'
               = int (length (w # live)) + int (attaches ops) - int (detaches ops)
           \<and> 0 \<le> websocketConnections s'
           \<and> (status s' = Streaming \<longleftrightarrow> 0 < websocketConnections s')"
      using wf Cons.prems(2,4) by (intro Cons.IH [OF wf(2) _ st]) auto
    then obtain s' where s':
      "map_of (storage (run_connections F sessionId ops (connection_step F sessionId a st)))
         (session_key sessionId) = Some s'"
      "websocketConnections s'
         = int (length (w # live)) + int (attaches ops) - int (detaches ops)"
      "0 \<le> websocketConnections s'"
      "status s' = Streaming \<longleftrightarrow> 0 < websocketConnections s'"
      by blast
    have n: "attaches (a # ops) = Suc (attaches ops)" "detaches (a # ops) = detaches ops"
      by (simp_all add: Attach attaches_def detaches_def)
    from s'(2) have "websocketConnections s'
        = int (length live) + int (attaches (a # ops)) - int (detaches (a # ops))"
      unfolding n by simp
    with s'(1,3,4) show ?thesis by auto
  next
    case (Detach w now)
    let ?s = "s\<lparr>websocketConnections := websocketConnections s - 1,
                  status := (if websocketConnections s = 1 then Inactive else status s),
                  lastActivity := ISO now\<rparr>"
    from Cons.prems(1) Detach have wf: "w \<in> set live" "well_formed (removeAll w live) ops"
      by auto
    from wf(1) have pos: "0 < length live" by (cases live) auto
    with Cons.prems(4) have cpos: "0 < websocketConnections s" by simp
    have len: "length (removeAll w live) = length live - 1"
      using wf(1) Cons.prems(2)
      by (simp add: distinct_remove1_removeAll [symmetric] length_remove1)
    have st: "map_of (storage (connection_step F sessionId a st)) (session_key sessionId) = Some ?s"
      unfolding Detach by (rule detach_stored [OF assms(1,2) Cons.prems(3) cpos])
    have "\<exists>s'. map_of (storage (run_connections F sessionId ops (connection_step F sessionId a st)))
                 (session_key sessionId) = Some s'
           \<and> websocketConnections s'
               = int (length (removeAll w live)) + int (attaches ops) - int (detaches ops)
           \<and> 0 \<le> websocketConnections s'
           \<and> (status s' = Streaming \<longleftrightarrow> 0 < websocketConnections s')"
    proof (rule Cons.IH [OF wf(2) _ st])
      show "distinct (removeAll w live)"
        using Cons.prems(2) by (simp add: distinct_removeAll)
      show "websocketConnections ?s = int (length (removeAll w live))"
        using Cons.prems(4) pos unfolding len by (cases live) auto
      show "status ?s = Streaming \<longleftrightarrow> 0 < websocketConnections ?s"
        using cpos Cons.prems(5) by auto
    qed
    then obtain s' where s':
      "map_of (storage (run_connections F sessionId ops (connection_step F sessionId a st)))
         (session_key sessionId) = Some s'"
      "websocketConnections s'
         = int (length (removeAll w live)) + int (attaches ops) - int (detaches ops)"
      "0 \<le> websocketConnections s'"
      "status s' = Streaming \<longleftrightarrow> 0 < websocketConnections s'"
      by blast
    have n: "attaches (a # ops) = attaches ops" "detaches (a # ops) = Suc (detaches ops)"
      by (simp_all add: Detach attaches_def detaches_def)
    from s'(2) pos have "websocketConnections s'
        = int (length live) + int (attaches (a # ops)) - int (detaches (a # ops))"
      unfolding n len by (cases live) auto
    with s'(1,3,4) show ?thesis by auto
  qed
qed

text \<open>
  C2: take a stored session with no connections whose status is not streaming, a
  storage that does not fail on its key, and any sequence of attaches and detaches the
  runtime can produce. At every point of the sequence (after its first \<open>n\<close>
  operations, for every \<open>n\<close>) the stored connection count is the number of attaches
  so far minus the number of detaches so far, it is not negative, and the status is
  streaming exactly when the count is positive.
\<close>

theorem attach_detach_accounting:
  assumes "get_error F (session_key sessionId) = None"
    and "put_error F (session_key sessionId) = None"
    and "map_of (storage st) (session_key sessionId) = Some s"
    and "websocketConnections s = 0"
    and "status s \<noteq> Streaming"
    and "well_formed [] ops"
  shows "\<exists>s'. map_of (storage (run_connections F sessionId (take n ops) st))
                 (session_key sessionId) = Some s'
           \<and> websocketConnections s'
               = int (attaches (take n ops)) - int (detaches (take n ops))
           \<and> 0 \<le> websocketConnections s'
           \<and> (status s' = Streaming \<longleftrightarrow> 0 < websocketConnections s')"
  using run_connections_count [OF assms(1,2) well_formed_take [OF assms(6), of n] _ assms(3)]
    assms(4,5)
  by simp

text \<open>C2 after two attaches and one detach on the new session \<open>s1\<close>.\<close>

theorem attach_detach_accounting_witness:
  "\<exists>s'. map_of (storage (run_connections no_faults ''s1'' (take 3 sample_ops) fresh_state))
           (session_key ''s1'') = Some s'
        \<and> websocketConnections s' = 1 \<and> status s' = Streaming"
proof -
  have g: "get_error no_faults (session_key ''s1'') = None"
    and p: "put_error no_faults (session_key ''s1'') = None"
    by (simp_all add: no_faults_def)
  have m: "map_of (storage fresh_state) (session_key ''s1'') = Some (new_session ''s1'' 0)"
    by (simp add: fresh_state_def session_key_def)
  have c: "websocketConnections (new_session ''s1'' 0) = 0"
    and a: "status (new_session ''s1'' 0) \<noteq> Streaming"
    by (simp_all add: new_session_def)
  have w: "well_formed [] sample_ops"
    by (simp add: sample_ops_def)
  have n: "int (attaches (take 3 sample_ops)) - int (detaches (take 3 sample_ops)) = 1"
    by (simp add: sample_ops_def attaches_def detaches_def)
  from attach_detach_accounting [OF g p m c a w, of 3] show ?thesis
    unfolding n by auto
qed

section \<open>The relay of the backend feed\<close>

text \<open>
  C7, as stated, fails. The claim: a chunk that fails to decode is forwarded as a raw
  data event with the chunk's content, and no bytes of the feed are discarded. Here the
  chunk has the two lines \<^verbatim>\<open>data: {bad\<close> and \<^verbatim>\<open>tail\<close>: the one event sent
  carries \<^verbatim>\<open>{bad\<close> only, and a chunk that is the line \<^verbatim>\<open>tail\<close> alone produces no
  event at all.
\<close>

theorem relay_drops_bytes_counterexample:
  "sample_parse ''{bad'' = None
   \<and> split_lines two_lines = [''data: {bad'', ''tail'']
   \<and> relay_chunks no_faults sample_parse ''s1'' ''e1'' None 1 [(id, 7, two_lines)]
       (None, busy_state)
     = Inr (None, deliver 1 (RawData (ISO 7) ''{bad'' ''s1'' None) busy_state)
   \<and> relay_chunks no_faults sample_parse ''s1'' ''e1'' None 1 [(id, 7, ''tail'')]
       (None, busy_state)
     = Inr (None, busy_state)"
  by (simp add: sample_parse_def two_lines_def relay_line_def startsWith_def no_faults_def
      while_suspended_def)

text \<open>
  C7, amended: for every line of a chunk that starts with \<^verbatim>\<open>data: \<close> and whose
  remainder fails to parse, the relay sends one raw data event carrying that remainder
  on the requesting socket (when the socket accepts it); every line that does not start
  with \<^verbatim>\<open>data: \<close> is skipped and nothing is sent for it.
\<close>

theorem relay_line_raw:
  "(startsWith line ''data: '' \<and> parse (drop 6 line) = None \<and> send_error F websocket = None
      \<longrightarrow> relay_line F parse sessionId executionId requestId websocket now line (session, st)
          = Inr (session,
                 deliver websocket (RawData (ISO now) (drop 6 line) sessionId requestId) st))
   \<and> (\<not> startsWith line ''data: ''
      \<longrightarrow> relay_line F parse sessionId executionId requestId websocket now line (session, st)
          = Inr (session, st))
   \<and> msg_type (RawData (ISO now) (drop 6 line) sessionId requestId) = Some ''data''"
  by (simp add: relay_line_def)

text \<open>The amended C7 at the two lines of the sample chunk.\<close>

theorem relay_line_raw_witness:
  "relay_line no_faults sample_parse ''s1'' ''e1'' None 1 7 ''data: {bad'' (None, busy_state)
     = Inr (None, deliver 1 (RawData (ISO 7) ''{bad'' ''s1'' None) busy_state)
   \<and> relay_line no_faults sample_parse ''s1'' ''e1'' None 1 7 ''tail'' (None, busy_state)
     = Inr (None, busy_state)"
proof -
  have a: "startsWith ''data: {bad'' ''data: '' \<and> sample_parse (drop 6 ''data: {bad'') = None
           \<and> send_error no_faults 1 = None"
    by (simp add: startsWith_def sample_parse_def no_faults_def)
  have b: "\<not> startsWith ''tail'' ''data: ''"
    by (simp add: startsWith_def)
  from relay_line_raw [of "''data: {bad''" sample_parse no_faults 1 "''s1''" "''e1''" None 7
      None busy_state] a
  have "relay_line no_faults sample_parse ''s1'' ''e1'' None 1 7 ''data: {bad'' (None, busy_state)
     = Inr (None, deliver 1 (RawData (ISO 7) (drop 6 ''data: {bad'') ''s1'' None) busy_state)"
    by blast
  moreover
  from relay_line_raw [of "''tail''" sample_parse no_faults 1 "''s1''" "''e1''" None 7
      None busy_state] b
  have "relay_line no_faults sample_parse ''s1'' ''e1'' None 1 7 ''tail'' (None, busy_state)
     = Inr (None, busy_state)"
    by blast
  ultimately show ?thesis by simp
qed

section \<open>The handler's own execution\<close>

lemma find_update_execution:
  assumes "\<And>e. exec_id (f e) = exec_id e"
  shows "find_execution executionId (update_execution executionId f es)
         = map_option f (find_execution executionId es)"
  using assms by (induction es) auto

lemma find_execution_own:
  "find_execution executionId es = None \<Longrightarrow> exec_id own = executionId
   \<Longrightarrow> find_execution executionId (es @ [own]) = Some own"
  by (induction es) (auto split: if_splits)

lemma update_execution_own:
  "find_execution executionId es = None \<Longrightarrow> exec_id own = executionId
   \<Longrightarrow> update_execution executionId f (es @ [own]) = es @ [f own]"
  by (induction es) (auto split: if_splits)

lemma extends_refl: "extends w eid st st"
  by (simp add: extends_def feed_messages_def)

lemma extends_trans: "extends w eid a b \<Longrightarrow> extends w eid b c \<Longrightarrow> extends w eid a c"
  by (auto simp: extends_def feed_messages_def)

lemma extends_suspended: "extends w eid a b \<Longrightarrow> extends w eid a (while_suspended others b)"
  by (simp add: extends_def while_suspended_def)

lemma stored_suspended:
  "keeps_execution sessionId executionId others \<Longrightarrow> stored_execution sessionId executionId st
   \<Longrightarrow> stored_execution sessionId executionId (while_suspended others st)"
  by (simp add: keeps_execution_def stored_execution_def while_suspended_def)

lemma record_suspended:
  "keeps_record sessionId others
   \<Longrightarrow> map_of (storage (while_suspended others st)) (session_key sessionId)
       = map_of (storage st) (session_key sessionId)"
  by (simp add: keeps_record_def while_suspended_def)

text \<open>One parsed event, from the state the handler keeps.\<close>

lemma relay_event_own:
  assumes "put_error F (session_key sessionId) = None"
    and "send_error F websocket = None"
    and "find_execution executionId (toolExecutions s0) = None"
    and "exec_id own = executionId"
  shows "relay_event F sessionId executionId websocket parsedData
             (Some (appended s0 own), st)
           = (if ev_type parsedData = Some ''progress''
              then Inr (Some (appended s0
                          (own\<lparr>progress := or_else (ev_progress parsedData) (progress own)\<rparr>)),
                        deliver websocket (Forwarded parsedData executionId (forwarded_source parsedData))
                          (st\<lparr>storage := AList.update (session_key sessionId)
                             (appended s0
                               (own\<lparr>progress := or_else (ev_progress parsedData) (progress own)\<rparr>))
                             (storage st)\<rparr>))
              else Inr (Some (appended s0 own),
                        deliver websocket (Forwarded parsedData executionId (forwarded_source parsedData)) st))"
proof -
  have f: "find_execution executionId (toolExecutions (appended s0 own)) = Some own"
    using assms(3,4) by (simp add: appended_def find_execution_own)
  have u: "relay_progress executionId p (appended s0 own)
           = appended s0 (own\<lparr>progress := or_else p (progress own)\<rparr>)" for p
    using assms(3,4) by (simp add: relay_progress_def appended_def update_execution_own)
  show ?thesis
    using assms(1,2) f u
    by (simp add: relay_event_def Let_def forwarded_source_def)
qed

lemma kept_refl: "own_running eid own \<Longrightarrow> kept w sid eid s0 own st own st"
  by (simp add: kept_def extends_refl)

lemma kept_trans:
  "kept w sid eid s0 own st own1 st1 \<Longrightarrow> kept w sid eid s0 own1 st1 own2 st2
   \<Longrightarrow> kept w sid eid s0 own st own2 st2"
  by (auto simp: kept_def intro: extends_trans)

lemma extends_deliver:
  "is_feed_message eid m \<Longrightarrow> extends w eid st (deliver w m st)"
  by (simp add: extends_def feed_messages_def deliver_def)

lemma relay_event_kept:
  assumes "put_error F (session_key sessionId) = None"
    and "send_error F websocket = None"
    and "find_execution executionId (toolExecutions s0) = None"
    and "own_running executionId own"
  shows "\<exists>own1 st1. relay_event F sessionId executionId websocket parsedData
             (Some (appended s0 own), st) = Inr (Some (appended s0 own1), st1)
           \<and> kept websocket sessionId executionId s0 own st own1 st1"
proof -
  have id: "exec_id own = executionId"
    using assms(4) by (simp add: own_running_def)
  let ?own = "own\<lparr>progress := or_else (ev_progress parsedData) (progress own)\<rparr>"
  let ?m = "Forwarded parsedData executionId (forwarded_source parsedData)"
  have run: "own_running executionId ?own"
    using assms(4) by (simp add: own_running_def)
  have has: "find_execution executionId (toolExecutions (appended s0 ?own)) \<noteq> None"
    using assms(3) id by (simp add: appended_def find_execution_own)
  show ?thesis
  proof (cases "ev_type parsedData = Some ''progress''")
    case True
    let ?st = "deliver websocket ?m
                 (st\<lparr>storage := AList.update (session_key sessionId) (appended s0 ?own)
                    (storage st)\<rparr>)"
    have "relay_event F sessionId executionId websocket parsedData
            (Some (appended s0 own), st) = Inr (Some (appended s0 ?own), ?st)"
      using relay_event_own [OF assms(1,2,3) id, of parsedData st] True by simp
    moreover have "kept websocket sessionId executionId s0 own st ?own ?st"
      using run has
      by (simp add: kept_def extends_def feed_messages_def deliver_def update_conv'
          stored_execution_def)
    ultimately show ?thesis by blast
  next
    case False
    have "relay_event F sessionId executionId websocket parsedData
            (Some (appended s0 own), st) = Inr (Some (appended s0 own), deliver websocket ?m st)"
      using relay_event_own [OF assms(1,2,3) id, of parsedData st] False by simp
    moreover have "kept websocket sessionId executionId s0 own st own (deliver websocket ?m st)"
      using assms(4)
      by (simp add: kept_def extends_def feed_messages_def deliver_def stored_execution_def)
    ultimately show ?thesis by blast
  qed
qed

lemma relay_line_kept:
  assumes "put_error F (session_key sessionId) = None"
    and "send_error F websocket = None"
    and "find_execution executionId (toolExecutions s0) = None"
    and "own_running executionId own"
  shows "\<exists>own1 st1. relay_line F parse sessionId executionId requestId websocket now line
             (Some (appended s0 own), st) = Inr (Some (appended s0 own1), st1)
           \<and> kept websocket sessionId executionId s0 own st own1 st1"
proof (cases "startsWith line ''data: ''")
  case False
  then have "relay_line F parse sessionId executionId requestId websocket now line
             (Some (appended s0 own), st) = Inr (Some (appended s0 own), st)"
    by (simp add: relay_line_def)
  with kept_refl [OF assms(4)] show ?thesis by blast
next
  case True
  show ?thesis
  proof (cases "parse (drop 6 line)")
    case None
    let ?st = "deliver websocket (RawData (ISO now) (drop 6 line) sessionId requestId) st"
    have "relay_line F parse sessionId executionId requestId websocket now line
            (Some (appended s0 own), st) = Inr (Some (appended s0 own), ?st)"
      using True None assms(2) by (simp add: relay_line_def)
    moreover have "kept websocket sessionId executionId s0 own st own ?st"
      using assms(4)
      by (simp add: kept_def extends_def feed_messages_def deliver_def stored_execution_def)
    ultimately show ?thesis by blast
  next
    case (Some parsedData)
    from relay_event_kept [OF assms, of parsedData st] obtain own1 st1 where
      r: "relay_event F sessionId executionId websocket parsedData
         (Some (appended s0 own), st) = Inr (Some (appended s0 own1), st1)"
      and k: "kept websocket sessionId executionId s0 own st own1 st1"
      by blast
    have "relay_line F parse sessionId executionId requestId websocket now line
            (Some (appended s0 own), st) = Inr (Some (appended s0 own1), st1)"
      using True Some r by (simp add: relay_line_def)
    with k show ?thesis by blast
  qed
qed

lemma relay_lines_kept:
  assumes "put_error F (session_key sessionId) = None"
    and "send_error F websocket = None"
    and "find_execution executionId (toolExecutions s0) = None"
    and "own_running executionId own"
  shows "\<exists>own1 st1. relay_lines F parse sessionId executionId requestId websocket now lines
             (Some (appended s0 own), st) = Inr (Some (appended s0 own1), st1)
           \<and> kept websocket sessionId executionId s0 own st own1 st1"
  using assms(4)
proof (induction lines arbitrary: own st)
  case Nil
  have "relay_lines F parse sessionId executionId requestId websocket now []
          (Some (appended s0 own), st) = Inr (Some (appended s0 own), st)"
    by simp
  with kept_refl [OF Nil.prems] show ?case by blast
next
  case (Cons line lines)
  from relay_line_kept [OF assms(1,2,3) Cons.prems, of parse requestId now line st]
  obtain own1 st1 where
    a: "relay_line F parse sessionId executionId requestId websocket now line
          (Some (appended s0 own), st) = Inr (Some (appended s0 own1), st1)"
       "kept websocket sessionId executionId s0 own st own1 st1"
    by blast
  from a(2) have "own_running executionId own1" by (simp add: kept_def)
  from Cons.IH [OF this, of st1] obtain own2 st2 where
    b: "relay_lines F parse sessionId executionId requestId websocket now lines
          (Some (appended s0 own1), st1) = Inr (Some (appended s0 own2), st2)"
       "kept websocket sessionId executionId s0 own1 st1 own2 st2"
    by blast
  have "relay_lines F parse sessionId executionId requestId websocket now (line # lines)
          (Some (appended s0 own), st) = Inr (Some (appended s0 own2), st2)"
    using a(1) b(1) by simp
  with kept_trans [OF a(2) b(2)] show ?case by blast
qed

lemma relay_chunks_kept:
  assumes "put_error F (session_key sessionId) = None"
    and "send_error F websocket = None"
    and "find_execution executionId (toolExecutions s0) = None"
    and "own_running executionId own"
  shows "\<exists>own1 st1. relay_chunks F parse sessionId executionId requestId websocket chunks
             (Some (appended s0 own), st) = Inr (Some (appended s0 own1), st1)
           \<and> own_running executionId own1
           \<and> extends websocket executionId st st1
           \<and> (list_all (keeps_record sessionId) (map fst chunks)
                \<longrightarrow> map_of (storage st) (session_key sessionId) = Some (appended s0 own)
                \<longrightarrow> map_of (storage st1) (session_key sessionId) = Some (appended s0 own1))
           \<and> (list_all (keeps_execution sessionId executionId) (map fst chunks)
                \<longrightarrow> stored_execution sessionId executionId st
                \<longrightarrow> stored_execution sessionId executionId st1)"
  using assms(4)
proof (induction chunks arbitrary: own st)
  case Nil
  have "relay_chunks F parse sessionId executionId requestId websocket []
          (Some (appended s0 own), st) = Inr (Some (appended s0 own), st)"
    by simp
  with Nil.prems show ?case
    by (intro exI [of _ own] exI [of _ st]) (simp add: extends_refl)
next
  case (Cons c chunks)
  obtain others now chunk where c: "c = (others, now, chunk)" by (cases c)
  let ?st = "while_suspended others st"
  from relay_lines_kept [OF assms(1,2,3) Cons.prems, of parse requestId now
      "split_lines chunk" ?st]
  obtain own1 st1 where
    a: "relay_lines F parse sessionId executionId requestId websocket now (split_lines chunk)
          (Some (appended s0 own), ?st) = Inr (Some (appended s0 own1), st1)"
    and k: "kept websocket sessionId executionId s0 own ?st own1 st1"
    by blast
  from k have run1: "own_running executionId own1" by (simp add: kept_def)
  from Cons.IH [OF run1, of st1] obtain own2 st2 where
    b: "relay_chunks F parse sessionId executionId requestId websocket chunks
          (Some (appended s0 own1), st1) = Inr (Some (appended s0 own2), st2)"
    and run2: "own_running executionId own2"
    and e2: "extends websocket executionId st1 st2"
    and j2: "list_all (keeps_record sessionId) (map fst chunks)
                \<longrightarrow> map_of (storage st1) (session_key sessionId) = Some (appended s0 own1)
                \<longrightarrow> map_of (storage st2) (session_key sessionId) = Some (appended s0 own2)"
    and k2: "list_all (keeps_execution sessionId executionId) (map fst chunks)
                \<longrightarrow> stored_execution sessionId executionId st1
                \<longrightarrow> stored_execution sessionId executionId st2"
    by blast
  have r: "relay_chunks F parse sessionId executionId requestId websocket (c # chunks)
          (Some (appended s0 own), st) = Inr (Some (appended s0 own2), st2)"
    using a b by (simp add: c)
  have e: "extends websocket executionId st st2"
  proof -
    have "extends websocket executionId st ?st"
      by (rule extends_suspended [OF extends_refl])
    moreover from k have "extends websocket executionId ?st st1" by (simp add: kept_def)
    ultimately show ?thesis using e2 by (blast intro: extends_trans)
  qed
  have j: "map_of (storage st2) (session_key sessionId) = Some (appended s0 own2)"
    if "list_all (keeps_record sessionId) (map fst (c # chunks))"
      "map_of (storage st) (session_key sessionId) = Some (appended s0 own)"
  proof -
    from that have "map_of (storage ?st) (session_key sessionId) = Some (appended s0 own)"
      by (simp add: c record_suspended)
    with k have "map_of (storage st1) (session_key sessionId) = Some (appended s0 own1)"
      by (simp add: kept_def)
    with j2 that(1) show ?thesis by simp
  qed
  have st: "stored_execution sessionId executionId st2"
    if "list_all (keeps_execution sessionId executionId) (map fst (c # chunks))"
      "stored_execution sessionId executionId st"
  proof -
    from that have "stored_execution sessionId executionId ?st"
      by (simp add: c stored_suspended)
    with k have "stored_execution sessionId executionId st1"
      by (simp add: kept_def)
    with k2 that(1) show ?thesis by simp
  qed
  from r run2 e j st show ?case by blast
qed

lemma begin_execution_own:
  assumes "get_error F (session_key sessionId) = None"
    and "put_error F (session_key sessionId) = None"
    and "send_error F websocket = None"
    and "map_of (storage st) (session_key sessionId) = Some s0"
  shows "begin_execution F sessionId websocket messageData executionId started st
         = Inr (Some (appended s0
                  \<lparr> exec_id = executionId, toolName = tool_name messageData,
                    agent = req_agent messageData, exec_status = Running,
                    startTime = ISO started, endTime = None, progress = Some 0 \<rparr>),
                deliver websocket
                  (ExecutionStarting (ISO started) (req_agent messageData)
                     (tool_name messageData) executionId (request_id messageData))
                  (st\<lparr>storage := AList.update (session_key sessionId)
                     (appended s0
                        \<lparr> exec_id = executionId, toolName = tool_name messageData,
                          agent = req_agent messageData, exec_status = Running,
                          startTime = ISO started, endTime = None, progress = Some 0 \<rparr>)
                     (storage st)\<rparr>))"
  using assms
  by (simp add: begin_execution_def start_execution_def getSessionData_def Let_def appended_def)

lemma mark_completed_own:
  "find_execution executionId (toolExecutions s0) = None \<Longrightarrow> exec_id own = executionId
   \<Longrightarrow> mark_completed executionId now (appended s0 own)
       = appended s0 (own\<lparr>exec_status := Completed, endTime := Some (ISO now),
                          progress := Some 100\<rparr>)"
  by (simp add: mark_completed_def appended_def update_execution_own)


lemma try_execution_result:
  assumes "get_error F (session_key sessionId) = None"
    and "put_error F (session_key sessionId) = None"
    and "send_error F websocket = None"
    and "map_of (storage st) (session_key sessionId) = Some s0"
    and "find_execution executionId (toolExecutions s0) = None"
  shows "\<exists>own st1 relayed.
           own_running executionId own
         \<and> feed_messages websocket executionId relayed
         \<and> delivered st1 = delivered st
             @ (websocket, ExecutionStarting (ISO started) (req_agent messageData)
                  (tool_name messageData) executionId (request_id messageData)) # relayed
         \<and> (case failure_reason response of
               None \<Rightarrow>
                 try_execution F parse sessionId websocket messageData executionId started
                   fetching response ended st = Inr st1
                 \<and> map_of (storage st1) (session_key sessionId)
                   = Some (appended s0 (own\<lparr>exec_status := Completed,
                             endTime := Some (ISO ended), progress := Some 100\<rparr>))
             | Some r \<Rightarrow>
                 try_execution F parse sessionId websocket messageData executionId started
                   fetching response ended st = Inl (r, st1)
                 \<and> (list_all (keeps_record sessionId) (suspensions fetching response)
                      \<longrightarrow> map_of (storage st1) (session_key sessionId) = Some (appended s0 own))
                 \<and> (list_all (keeps_execution sessionId executionId)
                        (suspensions fetching response)
                      \<longrightarrow> stored_execution sessionId executionId st1))"
proof -
  let ?own = "\<lparr> exec_id = executionId, toolName = tool_name messageData,
                agent = req_agent messageData, exec_status = Running,
                startTime = ISO started, endTime = None, progress = Some 0 \<rparr>"
  let ?ack = "ExecutionStarting (ISO started) (req_agent messageData)
                (tool_name messageData) executionId (request_id messageData)"
  let ?st1 = "deliver websocket ?ack
                (st\<lparr>storage := AList.update (session_key sessionId) (appended s0 ?own)
                   (storage st)\<rparr>)"
  let ?st2 = "while_suspended fetching ?st1"
  have b: "begin_execution F sessionId websocket messageData executionId started st
           = Inr (Some (appended s0 ?own), ?st1)"
    by (rule begin_execution_own [OF assms(1,2,3,4)])
  have run: "own_running executionId ?own"
    by (simp add: own_running_def)
  have d2: "delivered ?st2 = delivered st @ [(websocket, ?ack)]"
    by (simp add: while_suspended_def deliver_def)
  have j1: "map_of (storage ?st1) (session_key sessionId) = Some (appended s0 ?own)"
    by (simp add: deliver_def update_conv')
  have k1: "stored_execution sessionId executionId ?st1"
    using assms(5)
    by (simp add: stored_execution_def deliver_def update_conv' appended_def find_execution_own)
  have j2: "keeps_record sessionId fetching
            \<Longrightarrow> map_of (storage ?st2) (session_key sessionId) = Some (appended s0 ?own)"
    using j1 by (simp add: record_suspended)
  have k2: "keeps_execution sessionId executionId fetching
            \<Longrightarrow> stored_execution sessionId executionId ?st2"
    using k1 by (simp add: stored_suspended)
  have none: "feed_messages websocket executionId []"
    by (simp add: feed_messages_def)
  show ?thesis
  proof (cases response)
    case (FetchError r)
    have "try_execution F parse sessionId websocket messageData executionId started
            fetching response ended st = Inl (r, ?st2)"
      using b by (simp add: try_execution_def Let_def FetchError)
    with run none d2 j2 k2 show ?thesis
      by (intro exI [of _ ?own] exI [of _ ?st2] exI [of _ "[]"]) (simp add: FetchError)
  next
    case NoBody
    have "try_execution F parse sessionId websocket messageData executionId started
            fetching response ended st = Inl (''No response body from backend'', ?st2)"
      using b by (simp add: try_execution_def Let_def NoBody)
    with run none d2 j2 k2 show ?thesis
      by (intro exI [of _ ?own] exI [of _ ?st2] exI [of _ "[]"]) (simp add: NoBody)
  next
    case (Feed chunks others fin)
    from relay_chunks_kept [OF assms(2,3,5) run, of parse "request_id messageData" chunks ?st2]
    obtain own3 st3 where
      r: "relay_chunks F parse sessionId executionId (request_id messageData) websocket chunks
            (Some (appended s0 ?own), ?st2) = Inr (Some (appended s0 own3), st3)"
      and run3: "own_running executionId own3"
      and e3: "extends websocket executionId ?st2 st3"
      and j3: "list_all (keeps_record sessionId) (map fst chunks)
                \<longrightarrow> map_of (storage ?st2) (session_key sessionId) = Some (appended s0 ?own)
                \<longrightarrow> map_of (storage st3) (session_key sessionId) = Some (appended s0 own3)"
      and k3: "list_all (keeps_execution sessionId executionId) (map fst chunks)
                \<longrightarrow> stored_execution sessionId executionId ?st2
                \<longrightarrow> stored_execution sessionId executionId st3"
      by blast
    let ?st4 = "while_suspended others st3"
    from e3 obtain relayed where
      rel: "delivered st3 = delivered ?st2 @ relayed" "feed_messages websocket executionId relayed"
      by (auto simp: extends_def)
    have d4: "delivered ?st4 = delivered st @ (websocket, ?ack) # relayed"
      using rel(1) d2 by (simp add: while_suspended_def)
    have id3: "exec_id own3 = executionId"
      using run3 by (simp add: own_running_def)
    have j4: "map_of (storage ?st4) (session_key sessionId) = Some (appended s0 own3)"
      if "list_all (keeps_record sessionId) (suspensions fetching response)"
      using that j2 j3 by (simp add: Feed record_suspended)
    have k4: "stored_execution sessionId executionId ?st4"
      if "list_all (keeps_execution sessionId executionId) (suspensions fetching response)"
      using that k2 k3 by (simp add: Feed stored_suspended)
    show ?thesis
    proof (cases fin)
      case (ReadError m)
      have "try_execution F parse sessionId websocket messageData executionId started
              fetching response ended st = Inl (m, ?st4)"
        using b r by (simp add: try_execution_def Let_def Feed ReadError)
      with run3 rel(2) d4 j4 k4 show ?thesis
        by (intro exI [of _ own3] exI [of _ ?st4] exI [of _ relayed])
           (simp add: Feed ReadError)
    next
      case EndOfStream
      let ?done = "own3\<lparr>exec_status := Completed, endTime := Some (ISO ended),
                         progress := Some 100\<rparr>"
      let ?st5 = "?st4\<lparr>storage := AList.update (session_key sessionId) (appended s0 ?done)
                     (storage ?st4)\<rparr>"
      have f: "find_execution executionId (toolExecutions (appended s0 own3)) = Some own3"
        using assms(5) id3 by (simp add: appended_def find_execution_own)
      have "finish_execution F sessionId executionId ended (Some (appended s0 own3), ?st4)
            = Inr ?st5"
        using assms(2,5) f id3 by (simp add: finish_execution_def mark_completed_own)
      then have "try_execution F parse sessionId websocket messageData executionId started
              fetching response ended st = Inr ?st5"
        using b r by (simp add: try_execution_def Let_def Feed EndOfStream)
      moreover have "delivered ?st5 = delivered st @ (websocket, ?ack) # relayed"
        using d4 by simp
      moreover have "map_of (storage ?st5) (session_key sessionId) = Some (appended s0 ?done)"
        by (simp add: update_conv')
      ultimately show ?thesis
        using run3 rel(2)
        by (intro exI [of _ own3] exI [of _ ?st5] exI [of _ relayed])
           (simp add: Feed EndOfStream)
    qed
  qed
qed

lemma fail_execution_result:
  assumes "get_error F (session_key sessionId) = None"
    and "put_error F (session_key sessionId) = None"
    and "send_error F websocket = None"
  shows "\<exists>st1. fail_execution F sessionId websocket messageData executionId now message st
             = Inr st1
           \<and> delivered st1 = delivered st
               @ [(websocket, ExecutionError (ISO now) message executionId sessionId
                     (request_id messageData))]
           \<and> (stored_execution sessionId executionId st
                \<longrightarrow> (\<exists>e. stored_find sessionId executionId st1 = Some e
                        \<and> exec_status e = Failed))"
proof (cases "map_of (storage st) (session_key sessionId)")
  case None
  with assms show ?thesis
    by (simp add: fail_execution_def getSessionData_def deliver_def stored_execution_def)
next
  case (Some r)
  show ?thesis
  proof (cases "find_execution executionId (toolExecutions r)")
    case None
    with assms Some show ?thesis
      by (simp add: fail_execution_def getSessionData_def deliver_def stored_execution_def)
  next
    case e: (Some e)
    have f: "find_execution executionId (toolExecutions (mark_failed executionId now r))
             = Some (e\<lparr>exec_status := Failed, endTime := Some (ISO now)\<rparr>)"
      using e by (simp add: mark_failed_def find_update_execution)
    have "fail_execution F sessionId websocket messageData executionId now message st
          = Inr (deliver websocket
                   (ExecutionError (ISO now) message executionId sessionId
                      (request_id messageData))
                   (st\<lparr>storage := AList.update (session_key sessionId)
                      (mark_failed executionId now r) (storage st)\<rparr>))"
      using assms Some e by (simp add: fail_execution_def getSessionData_def)
    then show ?thesis
      using f by (simp add: deliver_def update_conv' stored_find_def)
  qed
qed


text \<open>The definitions a run of the handler on given data unfolds to.\<close>

lemmas handler_defs =
  handleToolExecutionRequest_def try_execution_def begin_execution_def start_execution_def
  finish_execution_def fail_execution_def getSessionData_def session_key_def deliver_def
  while_suspended_def relay_line_def relay_event_def relay_progress_def or_else_def
  mark_completed_def mark_failed_def startsWith_def stored_find_def Let_def




section \<open>What a handler writes back\<close>




section \<open>The outcome of a relayed execution\<close>

text \<open>
  C6, as stated, fails. The claim: on a feed or transport error one error event is
  broadcast to the session's attached connections. Here the sockets 1 and 2 are
  attached, socket 1 requests the execution and the fetch fails: both messages of the
  handler, the error event among them, go to socket 1, and socket 2 receives nothing.
\<close>

theorem error_event_not_broadcast_counterexample:
  "websockets busy_state = [1, 2]
   \<and> delivered (outcome (handleToolExecutionRequest no_faults sample_parse ''s1'' 1
        sample_request ''e1'' 5 id (FetchError ''boom'') 9 busy_state))
     = [(1, ExecutionStarting (ISO 5) ''bug_hunter'' ''scan'' ''e1'' (Some ''req-1'')),
        (1, ExecutionError (ISO 9) ''boom'' ''e1'' ''s1'' (Some ''req-1''))]"
  by (simp add: busy_state_def busy_session_def sample_request_def no_faults_def handler_defs)

text \<open>
  C6, amended: for every execution relayed for a stored session, with the storage not
  failing on its key and the requesting socket accepting messages, the handler returns,
  and all it sends goes to the requesting socket: the starting message, then for the
  lines of the feed the forwarded events, of whatever type, and the raw texts. A clean
  end of the feed leaves the execution stored as completed and nothing more is sent. A
  failed fetch, a missing body or a failed read is followed by exactly one more
  message, the handler's error event with the failure reason and the execution id, and
  leaves the execution stored as failed, provided that what happened while the handler
  was suspended kept the execution in the stored record.
\<close>

theorem relay_outcome:
  assumes "get_error F (session_key sessionId) = None"
    and "put_error F (session_key sessionId) = None"
    and "send_error F websocket = None"
    and "map_of (storage st) (session_key sessionId) = Some s0"
    and "find_execution executionId (toolExecutions s0) = None"
  shows "\<exists>st1 relayed.
           handleToolExecutionRequest F parse sessionId websocket messageData executionId
             started fetching response ended st = Inr st1
         \<and> (\<forall>x \<in> set relayed. fst x = websocket \<and> is_feed_message executionId (snd x))
         \<and> (case failure_reason response of
               None \<Rightarrow>
                 delivered st1 = delivered st
                   @ (websocket, ExecutionStarting (ISO started) (req_agent messageData)
                        (tool_name messageData) executionId (request_id messageData))
                   # relayed
                 \<and> (\<exists>e. stored_find sessionId executionId st1 = Some e
                        \<and> exec_status e = Completed)
             | Some r \<Rightarrow>
                 delivered st1 = delivered st
                   @ (websocket, ExecutionStarting (ISO started) (req_agent messageData)
                        (tool_name messageData) executionId (request_id messageData))
                   # relayed
                   @ [(websocket, ExecutionError (ISO ended) r executionId sessionId
                         (request_id messageData))]
                 \<and> msg_type (ExecutionError (ISO ended) r executionId sessionId
                       (request_id messageData)) = Some ''error''
                 \<and> (list_all (keeps_execution sessionId executionId)
                        (suspensions fetching response)
                      \<longrightarrow> (\<exists>e. stored_find sessionId executionId st1 = Some e
                              \<and> exec_status e = Failed)))"
proof -
  let ?ack = "(websocket, ExecutionStarting (ISO started) (req_agent messageData)
                (tool_name messageData) executionId (request_id messageData))"
  from try_execution_result [OF assms, where started = started and messageData = messageData
      and response = response and parse = parse and fetching = fetching and ended = ended]
  obtain own st1 relayed where
    run: "own_running executionId own"
    and rel: "feed_messages websocket executionId relayed"
    and d: "delivered st1 = delivered st @ ?ack # relayed"
    and out: "case failure_reason response of
               None \<Rightarrow>
                 try_execution F parse sessionId websocket messageData executionId started
                   fetching response ended st = Inr st1
                 \<and> map_of (storage st1) (session_key sessionId)
                   = Some (appended s0 (own\<lparr>exec_status := Completed,
                             endTime := Some (ISO ended), progress := Some 100\<rparr>))
             | Some r \<Rightarrow>
                 try_execution F parse sessionId websocket messageData executionId started
                   fetching response ended st = Inl (r, st1)
                 \<and> (list_all (keeps_record sessionId) (suspensions fetching response)
                      \<longrightarrow> map_of (storage st1) (session_key sessionId) = Some (appended s0 own))
                 \<and> (list_all (keeps_execution sessionId executionId)
                        (suspensions fetching response)
                      \<longrightarrow> stored_execution sessionId executionId st1)"
    by blast
  from rel have to: "\<forall>x \<in> set relayed. fst x = websocket \<and> is_feed_message executionId (snd x)"
    by (simp add: feed_messages_def list_all_iff)
  have id: "exec_id own = executionId"
    using run by (simp add: own_running_def)
  show ?thesis
  proof (cases "failure_reason response")
    case None
    with out have t: "try_execution F parse sessionId websocket messageData executionId started
                   fetching response ended st = Inr st1"
      and m: "map_of (storage st1) (session_key sessionId)
                   = Some (appended s0 (own\<lparr>exec_status := Completed,
                             endTime := Some (ISO ended), progress := Some 100\<rparr>))"
      by simp_all
    have "stored_find sessionId executionId st1
          = Some (own\<lparr>exec_status := Completed, endTime := Some (ISO ended),
                      progress := Some 100\<rparr>)"
      using m assms(5) id by (simp add: stored_find_def appended_def find_execution_own)
    with t d to None show ?thesis
      by (intro exI [of _ st1] exI [of _ relayed]) (simp add: handleToolExecutionRequest_def)
  next
    case (Some r)
    with out have t: "try_execution F parse sessionId websocket messageData executionId started
                   fetching response ended st = Inl (r, st1)"
      and k: "list_all (keeps_execution sessionId executionId) (suspensions fetching response)
                \<longrightarrow> stored_execution sessionId executionId st1"
      by simp_all
    from fail_execution_result [OF assms(1,2,3), where messageData = messageData
        and executionId = executionId and now = ended and message = r and st = st1]
    obtain st2 where
      f: "fail_execution F sessionId websocket messageData executionId ended r st1 = Inr st2"
      and d2: "delivered st2 = delivered st1
               @ [(websocket, ExecutionError (ISO ended) r executionId sessionId
                     (request_id messageData))]"
      and k2: "stored_execution sessionId executionId st1
                \<longrightarrow> (\<exists>e. stored_find sessionId executionId st2 = Some e
                        \<and> exec_status e = Failed)"
      by blast
    have "handleToolExecutionRequest F parse sessionId websocket messageData executionId
             started fetching response ended st = Inr st2"
      using t f by (simp add: handleToolExecutionRequest_def)
    with d d2 k k2 to Some show ?thesis
      by (intro exI [of _ st2] exI [of _ relayed]) simp
  qed
qed

text \<open>
  The amended C6 at a feed of one event that ends in a read error, and at the same
  feed ending cleanly.
\<close>

theorem relay_outcome_witness:
  "(\<exists>st1 relayed e.
      handleToolExecutionRequest no_faults sample_parse ''s1'' 1 sample_request ''e1'' 5 id
        (Feed [(id, 6, ''data: {}'')] id (ReadError ''reset'')) 9 busy_state = Inr st1
      \<and> delivered st1 = delivered busy_state
          @ (1, ExecutionStarting (ISO 5) ''bug_hunter'' ''scan'' ''e1'' (Some ''req-1''))
          # relayed
          @ [(1, ExecutionError (ISO 9) ''reset'' ''e1'' ''s1'' (Some ''req-1''))]
      \<and> stored_find ''s1'' ''e1'' st1 = Some e \<and> exec_status e = Failed)
   \<and> (\<exists>st1 relayed e.
      handleToolExecutionRequest no_faults sample_parse ''s1'' 1 sample_request ''e1'' 5 id
        (Feed [(id, 6, ''data: {}'')] id EndOfStream) 9 busy_state = Inr st1
      \<and> delivered st1 = delivered busy_state
          @ (1, ExecutionStarting (ISO 5) ''bug_hunter'' ''scan'' ''e1'' (Some ''req-1''))
          # relayed
      \<and> stored_find ''s1'' ''e1'' st1 = Some e \<and> exec_status e = Completed)"
proof -
  have g: "get_error no_faults (session_key ''s1'') = None"
    and p: "put_error no_faults (session_key ''s1'') = None"
    and w: "send_error no_faults 1 = None"
    by (simp_all add: no_faults_def)
  have m: "map_of (storage busy_state) (session_key ''s1'') = Some busy_session"
    by (simp add: busy_state_def session_key_def)
  have f: "find_execution ''e1'' (toolExecutions busy_session) = None"
    by (simp add: busy_session_def)
  have r: "req_agent sample_request = ''bug_hunter''" "tool_name sample_request = ''scan''"
    "request_id sample_request = Some ''req-1''"
    by (simp_all add: sample_request_def)
  have k: "list_all (keeps_execution ''s1'' ''e1'')
             (suspensions id (Feed [(id, 6, ''data: {}'')] id (ReadError ''reset'')))"
    by (simp add: keeps_execution_def)
  from relay_outcome [OF g p w m f, where parse = sample_parse
      and messageData = sample_request and started = 5 and fetching = id
      and response = "Feed [(id, 6, ''data: {}'')] id (ReadError ''reset'')" and ended = 9] k
  have a: "\<exists>st1 relayed e.
      handleToolExecutionRequest no_faults sample_parse ''s1'' 1 sample_request ''e1'' 5 id
        (Feed [(id, 6, ''data: {}'')] id (ReadError ''reset'')) 9 busy_state = Inr st1
      \<and> delivered st1 = delivered busy_state
          @ (1, ExecutionStarting (ISO 5) ''bug_hunter'' ''scan'' ''e1'' (Some ''req-1''))
          # relayed
          @ [(1, ExecutionError (ISO 9) ''reset'' ''e1'' ''s1'' (Some ''req-1''))]
      \<and> stored_find ''s1'' ''e1'' st1 = Some e \<and> exec_status e = Failed"
    unfolding r failure_reason.simps option.case by blast
  from relay_outcome [OF g p w m f, where parse = sample_parse
      and messageData = sample_request and started = 5 and fetching = id
      and response = "Feed [(id, 6, ''data: {}'')] id EndOfStream" and ended = 9]
  have b: "\<exists>st1 relayed e.
      handleToolExecutionRequest no_faults sample_parse ''s1'' 1 sample_request ''e1'' 5 id
        (Feed [(id, 6, ''data: {}'')] id EndOfStream) 9 busy_state = Inr st1
      \<and> delivered st1 = delivered busy_state
          @ (1, ExecutionStarting (ISO 5) ''bug_hunter'' ''scan'' ''e1'' (Some ''req-1''))
          # relayed
      \<and> stored_find ''s1'' ''e1'' st1 = Some e \<and> exec_status e = Completed"
    unfolding r failure_reason.simps option.case by blast
  from a b show ?thesis by (rule conjI)
qed

end
